theory Spec2Isabelle
  imports Complex_Main "HOL-Library.Char_ord" "HOL-Library.List_Lexorder"
begin

section \<open>Rhythm analyzer: data model\<close>

text \<open>
  The embedding follows \<^verbatim>\<open>rhythm_analyzer.py\<close>. Python floats are modelled as
  exact reals: every comparison, branch and list operation of the source is kept, the
  rounding error of IEEE arithmetic is not. Python and numpy library calls whose code is
  not part of the repository (filter design, onset detection, windowed RMS energy) are
  parameters of the functions that call them. Exceptions are values of \<open>py_error\<close>.
\<close>

datatype py_error = ZeroDivisionError | KeyError | LibraryError

text \<open>\<^verbatim>\<open>class DrumHit(BaseModel)\<close>: time, type, confidence, features.\<close>

record DrumHit =
  time :: real
  type :: string
  confidence :: real
  features :: "(string \<times> real) list option"

text \<open>\<^verbatim>\<open>class BeatResult(BaseModel)\<close>; a downbeat is the pair (time, beat position).\<close>

record BeatResult =
  bpm :: real
  bpm_confidence :: real
  beats :: "real list"
  downbeats :: "(real \<times> int) list"
  time_signature :: int

subsection \<open>Python arithmetic\<close>

text \<open>Python's \<^verbatim>\<open>round(x)\<close>: nearest integer, a tie goes to the even one.\<close>

definition py_round :: "real \<Rightarrow> int" where
  "py_round x =
     (let f = \<lfloor>x\<rfloor>; d = x - of_int f
      in if d < 1 / 2 then f else if 1 / 2 < d then f + 1
         else if even f then f else f + 1)"

text \<open>Python's \<^verbatim>\<open>int(x)\<close> on a float truncates towards zero.\<close>

definition py_int :: "real \<Rightarrow> int" where
  "py_int x = (if 0 \<le> x then \<lfloor>x\<rfloor> else \<lceil>x\<rceil>)"

text \<open>Python's float \<^verbatim>\<open>x % y\<close> and \<^verbatim>\<open>x // y\<close> for \<open>y \<noteq> 0\<close> (the sign follows the divisor).\<close>

definition py_floordiv :: "real \<Rightarrow> real \<Rightarrow> real" where
  "py_floordiv x y = of_int \<lfloor>x / y\<rfloor>"

definition py_fmod :: "real \<Rightarrow> real \<Rightarrow> real" where
  "py_fmod x y = x - y * of_int \<lfloor>x / y\<rfloor>"

section \<open>Quantizer\<close>

text \<open>One entry of \<^verbatim>\<open>grid_positions\<close>.\<close>

record GridPosition =
  bar :: int
  beat :: int
  subbeat :: int
  original_time :: real
  quantized_time :: real

text \<open>The body of the \<^verbatim>\<open>for hit in hits\<close> loop of \<^verbatim>\<open>quantize_to_grid\<close>.\<close>

definition quantize_hit ::
  "real \<Rightarrow> real \<Rightarrow> real \<Rightarrow> real \<Rightarrow> real \<Rightarrow> int \<Rightarrow> DrumHit \<Rightarrow> DrumHit \<times> GridPosition" where
  "quantize_hit beat_duration grid_duration swing_offset downbeat_offset quantize_strength
       subdivision hit =
     (let rel_time = time hit - downbeat_offset;
          grid_index = py_round (rel_time / grid_duration);
          grid_time0 = (if grid_index mod 2 = 1
                        then of_int grid_index * grid_duration + swing_offset
                        else of_int grid_index * grid_duration);
          grid_time = grid_time0 + downbeat_offset;
          quantized_time = time hit + (grid_time - time hit) * quantize_strength;
          total_beats = rel_time / beat_duration;
          bar = py_int (py_floordiv total_beats 4) + 1;
          beat_in_bar = py_int (py_fmod total_beats 4) + 1;
          subbeat = py_int (py_fmod total_beats 1 * of_int subdivision) + 1
      in (\<lparr>time = quantized_time, type = type hit, confidence = confidence hit,
           features = features hit\<rparr>,
          \<lparr>bar = bar, beat = beat_in_bar, subbeat = subbeat,
           original_time = time hit, quantized_time = quantized_time\<rparr>))"

text \<open>
  \<^verbatim>\<open>quantize_to_grid\<close>. \<^verbatim>\<open>60.0 / bpm\<close> and \<^verbatim>\<open>beat_duration / subdivision\<close>
  raise ZeroDivisionError before the loop starts; inside the loop the divisors
  \<^verbatim>\<open>grid_duration\<close> and \<^verbatim>\<open>beat_duration\<close> are then non-zero.
\<close>

definition quantize_to_grid ::
  "DrumHit list \<Rightarrow> real \<Rightarrow> real \<Rightarrow> real \<Rightarrow> real \<Rightarrow> int
     \<Rightarrow> py_error + (DrumHit list \<times> GridPosition list)" where
  "quantize_to_grid hits bpm downbeat_offset swing quantize_strength subdivision =
     (if bpm = 0 then Inl ZeroDivisionError
      else let beat_duration = 60 / bpm
      in if subdivision = 0 then Inl ZeroDivisionError
      else let grid_duration = beat_duration / of_int subdivision;
               swing_ratio = swing / 100;
               swing_offset = (swing_ratio - 1 / 2) * grid_duration;
               steps = map (quantize_hit beat_duration grid_duration swing_offset
                              downbeat_offset quantize_strength subdivision) hits
      in Inr (map fst steps, map snd steps))"
  for bpm

section \<open>Beat tracking: the fallback result and half-time correction\<close>

text \<open>
  The downbeat list both \<^verbatim>\<open>detect_beats_librosa\<close> and the half-time correction build:
  \<^verbatim>\<open>[{'time': float(beats[i]), 'beat_position': (i % 4) + 1} for i in range(len(beats))]\<close>.
\<close>

definition rebuild_downbeats :: "real list \<Rightarrow> (real \<times> int) list" where
  "rebuild_downbeats new_beats =
     map (\<lambda>i. (new_beats ! i, int i mod 4 + 1)) [0..<length new_beats]"

text \<open>
  The \<^verbatim>\<open>BeatResult\<close> that \<^verbatim>\<open>detect_beats_librosa\<close> returns, given what librosa
  computed: the tempo, the beat times (tracked, or synthesised when fewer than two were
  found) and the confidence estimate. The fallback always reports 4/4.
\<close>

definition detect_beats_librosa_result :: "real \<Rightarrow> real list \<Rightarrow> real \<Rightarrow> BeatResult" where
  "detect_beats_librosa_result tempo beat_times confidence_estimate =
     \<lparr>bpm = tempo, bpm_confidence = min confidence_estimate 1, beats = beat_times,
      downbeats = rebuild_downbeats beat_times, time_signature = 4\<rparr>"

text \<open>
  The beat interpolation loop:
  \<^verbatim>\<open>for i in range(len(old_beats) - 1): new_beats.append(old_beats[i]);
    new_beats.append((old_beats[i] + old_beats[i + 1]) / 2)\<close>
  followed by \<^verbatim>\<open>if old_beats: new_beats.append(old_beats[-1])\<close>.
\<close>

fun interpolate_beats :: "real list \<Rightarrow> real list" where
  "interpolate_beats (a # b # old_beats) = a # (a + b) / 2 # interpolate_beats (b # old_beats)"
| "interpolate_beats old_beats = old_beats"

text \<open>
  Which return statement of \<^verbatim>\<open>correct_half_time_spectral\<close> was taken, as its log
  messages tell: no correction needed, the low-confidence heuristic (rule A), an empty
  hi-hat band, the spectral doubling (rule B), the spectral check without doubling, and
  the \<^verbatim>\<open>except\<close> branch.
\<close>

datatype half_time_path =
  NoCorrectionNeeded | LowConfidenceHeuristic | EmptyBand | SpectralDoubling
  | SpectralUnchanged | SpectralFailed

text \<open>
  The body of the \<^verbatim>\<open>try\<close> block. \<open>hihat_onsets low high y sr\<close> stands for the
  scipy and librosa calls (band-pass design with the normalised edges, filtering, onset
  detection, frames to times): it returns the onset times or raises. The divisions raise
  ZeroDivisionError on a zero divisor, in the order the source evaluates them.
\<close>

definition spectral_check ::
  "(real \<Rightarrow> real \<Rightarrow> real list \<Rightarrow> int \<Rightarrow> py_error + real list) \<Rightarrow> real list \<Rightarrow> int \<Rightarrow> BeatResult
     \<Rightarrow> py_error + (half_time_path \<times> BeatResult)" where
  "spectral_check hihat_onsets y sr beat_result =
     (let detected_bpm = bpm beat_result; confidence = bpm_confidence beat_result;
          nyq = of_int sr / 2
      in if nyq = 0 then Inl ZeroDivisionError
      else let low = min (5000 / nyq) (9 / 10); high = min (15000 / nyq) (99 / 100)
      in if low \<ge> high then Inr (EmptyBand, beat_result)
      else case hihat_onsets low high y sr of
        Inl e \<Rightarrow> Inl e
      | Inr hihat_times \<Rightarrow>
          let duration = of_nat (length y) / of_int sr
          in if detected_bpm = 0 then Inl ZeroDivisionError
          else let bar_duration = 60 / detected_bpm * 4;
                   num_bars = duration / bar_duration;
                   expected_transients_per_bar = 8;
                   expected_total = num_bars * expected_transients_per_bar;
                   actual_total = of_nat (length hihat_times)
          in if expected_total + 1 = 0 then Inl ZeroDivisionError
          else let density_ratio = actual_total / (expected_total + 1)
          in if density_ratio > 3 / 2
             then let corrected_bpm = detected_bpm * 2;
                      new_beats = interpolate_beats (beats beat_result);
                      new_downbeats = rebuild_downbeats new_beats
                  in Inr (SpectralDoubling,
                          \<lparr>bpm = corrected_bpm,
                           bpm_confidence = min (confidence * (6 / 5)) (17 / 20),
                           beats = new_beats, downbeats = new_downbeats,
                           time_signature = time_signature beat_result\<rparr>)
             else Inr (SpectralUnchanged, beat_result))"

text \<open>\<^verbatim>\<open>correct_half_time_spectral\<close>, with the path taken.\<close>

definition correct_half_time_spectral ::
  "(real \<Rightarrow> real \<Rightarrow> real list \<Rightarrow> int \<Rightarrow> py_error + real list) \<Rightarrow> real list \<Rightarrow> int \<Rightarrow> BeatResult
     \<Rightarrow> half_time_path \<times> BeatResult" where
  "correct_half_time_spectral hihat_onsets y sr beat_result =
     (let detected_bpm = bpm beat_result; confidence = bpm_confidence beat_result
      in if detected_bpm \<ge> 100 \<or> confidence > 7 / 10 then (NoCorrectionNeeded, beat_result)
      else if detected_bpm < 95 \<and> confidence < 1 / 2
      then let corrected_bpm = detected_bpm * 2;
               new_beats = interpolate_beats (beats beat_result);
               new_downbeats = rebuild_downbeats new_beats
           in (LowConfidenceHeuristic,
               \<lparr>bpm = corrected_bpm,
                bpm_confidence = min (confidence * (13 / 10)) (7 / 10),
                beats = new_beats, downbeats = new_downbeats,
                time_signature = time_signature beat_result\<rparr>)
      else case spectral_check hihat_onsets y sr beat_result of
             Inl e \<Rightarrow> (SpectralFailed, beat_result)
           | Inr r \<Rightarrow> r)"

section \<open>Filter bank\<close>

text \<open>
  The nested \<^verbatim>\<open>bandpass_filter\<close> of \<^verbatim>\<open>detect_drums_beat_aligned\<close>. The waveform
  type is left open: the function never looks at a sample. \<open>butter_sosfilt order low high data\<close>
  stands for scipy's \<^verbatim>\<open>butter\<close> followed by \<^verbatim>\<open>sosfilt\<close>: it returns the filtered
  waveform or raises. \<^verbatim>\<open>lowcut / nyq\<close> raises ZeroDivisionError outside the
  \<^verbatim>\<open>try\<close> when \<^verbatim>\<open>fs\<close> is 0.
\<close>

definition bandpass_filter ::
  "(int \<Rightarrow> real \<Rightarrow> real \<Rightarrow> 'w \<Rightarrow> py_error + 'w) \<Rightarrow> 'w \<Rightarrow> real \<Rightarrow> real \<Rightarrow> real \<Rightarrow> int
     \<Rightarrow> py_error + 'w" where
  "bandpass_filter butter_sosfilt data lowcut highcut fs order =
     (let nyq = 1 / 2 * fs
      in if nyq = 0 then Inl ZeroDivisionError
      else let low = max (lowcut / nyq) (1 / 100); high = min (highcut / nyq) (99 / 100)
      in if low \<ge> high then Inr data
      else case butter_sosfilt order low high data of
             Inr filtered \<Rightarrow> Inr filtered
           | Inl e \<Rightarrow> Inr data)"

text \<open>
  The nested \<^verbatim>\<open>bandpass_filter\<close> of \<^verbatim>\<open>detect_onsets_per_drum\<close> ("Safe bandpass
  filter") and of \<^verbatim>\<open>detect_adaptive\<close>: as above, and a filtered waveform with a
  non-finite sample is dropped for the input. \<open>isfinite_all\<close> stands for
  \<^verbatim>\<open>np.isfinite(filtered).all()\<close>.
\<close>

definition bandpass_filter_safe ::
  "(int \<Rightarrow> real \<Rightarrow> real \<Rightarrow> 'w \<Rightarrow> py_error + 'w) \<Rightarrow> ('w \<Rightarrow> bool) \<Rightarrow> 'w \<Rightarrow> real \<Rightarrow> real \<Rightarrow> real
     \<Rightarrow> int \<Rightarrow> py_error + 'w" where
  "bandpass_filter_safe butter_sosfilt isfinite_all data lowcut highcut fs order =
     (let nyq = 1 / 2 * fs
      in if nyq = 0 then Inl ZeroDivisionError
      else let low = max (lowcut / nyq) (1 / 100); high = min (highcut / nyq) (99 / 100)
      in if low \<ge> high then Inr data
      else case butter_sosfilt order low high data of
             Inr filtered \<Rightarrow> if \<not> isfinite_all filtered then Inr data else Inr filtered
           | Inl e \<Rightarrow> Inr data)"

section \<open>Pattern filter\<close>

text \<open>The module-level table \<^verbatim>\<open>EXPECTED_POSITIONS\<close>: drum type, then genre, then beats.\<close>

definition EXPECTED_POSITIONS :: "(string \<times> (string \<times> real list) list) list" where
  "EXPECTED_POSITIONS =
     [(''kick'', [(''edm'', [0, 1, 2, 3]), (''pop'', [0, 2]), (''trap'', [0, 5 / 2]),
                  (''afro_house'', [0, 2]), (''default'', [0, 2])]),
      (''snare'', [(''edm'', [1, 3]), (''pop'', [1, 3]), (''trap'', [2]),
                   (''afro_house'', [1, 3]), (''default'', [1, 3])]),
      (''clap'', [(''edm'', [1, 3]), (''pop'', [1, 3]), (''trap'', [2]),
                  (''afro_house'', [1, 3]), (''default'', [1, 3])]),
      (''hihat'', [(''edm'', map (\<lambda>i. real i * (1 / 2)) [0..<8]),
                   (''pop'', map (\<lambda>i. real i * (1 / 2)) [0..<8]),
                   (''trap'', map (\<lambda>i. real i * (1 / 4)) [0..<16]),
                   (''afro_house'', map (\<lambda>i. real i * (1 / 2)) [0..<8]),
                   (''default'', map (\<lambda>i. real i * (1 / 2)) [0..<8])]),
      (''tom'', [(''default'', [0, 1 / 2, 1, 3 / 2, 2, 5 / 2, 3, 7 / 2])]),
      (''perc'', [(''default'', map (\<lambda>i. real i * (1 / 4)) [0..<16])])]"

text \<open>
  \<^verbatim>\<open>positions_dict.get(genre, positions_dict.get('default', []))\<close> on
  \<^verbatim>\<open>EXPECTED_POSITIONS.get(drum_type, {'default': [i * 0.5 for i in range(8)]})\<close>.
\<close>

definition expected_positions_for :: "string \<Rightarrow> string option \<Rightarrow> real list" where
  "expected_positions_for drum_type genre =
     (let positions_dict =
            (case map_of EXPECTED_POSITIONS drum_type of
               Some d \<Rightarrow> d
             | None \<Rightarrow> [(''default'', map (\<lambda>i. real i * (1 / 2)) [0..<8])]);
          dflt = (case map_of positions_dict ''default'' of Some ps \<Rightarrow> ps | None \<Rightarrow> [])
      in case genre of
           None \<Rightarrow> dflt
         | Some g \<Rightarrow> (case map_of positions_dict g of Some ps \<Rightarrow> ps | None \<Rightarrow> dflt))"

text \<open>The counters \<^verbatim>\<open>stats\<close>: per drum type of the table, (kept, removed).\<close>

type_synonym filter_stats = "(string \<times> nat \<times> nat) list"

definition stats_kept :: "string \<Rightarrow> filter_stats \<Rightarrow> filter_stats" where
  "stats_kept drum_type stats =
     map (\<lambda>(d, k, r). if d = drum_type then (d, k + 1, r) else (d, k, r)) stats"

definition stats_removed :: "string \<Rightarrow> filter_stats \<Rightarrow> filter_stats" where
  "stats_removed drum_type stats =
     map (\<lambda>(d, k, r). if d = drum_type then (d, k, r + 1) else (d, k, r)) stats"

text \<open>
  The \<^verbatim>\<open>for hit in hits\<close> loop of \<^verbatim>\<open>filter_hits_by_pattern\<close>, on the state
  (filtered, stats). A hit before the downbeat is counted with
  \<^verbatim>\<open>stats[drum_type]['removed'] = ...\<close>, which raises KeyError for a drum type the
  table does not have; the float \<^verbatim>\<open>%\<close> raises ZeroDivisionError when the bar
  duration is 0.
\<close>

fun filter_hits_loop ::
  "real \<Rightarrow> real \<Rightarrow> real \<Rightarrow> real \<Rightarrow> string option \<Rightarrow> DrumHit list \<Rightarrow> DrumHit list \<times> filter_stats
     \<Rightarrow> py_error + (DrumHit list \<times> filter_stats)" where
  "filter_hits_loop beat_duration bar_duration tolerance_sec downbeat_time genre []
       (filtered, stats) = Inr (filtered, stats)"
| "filter_hits_loop beat_duration bar_duration tolerance_sec downbeat_time genre (hit # hits)
       (filtered, stats) =
     (let drum_type = type hit; hit_time = time hit;
          expected_positions = expected_positions_for drum_type genre;
          time_from_downbeat = hit_time - downbeat_time
      in if time_from_downbeat < 0
         then (if drum_type \<in> set (map fst stats)
               then filter_hits_loop beat_duration bar_duration tolerance_sec downbeat_time
                      genre hits (filtered, stats_removed drum_type stats)
               else Inl KeyError)
         else if bar_duration = 0 then Inl ZeroDivisionError
         else let bar_position = py_fmod time_from_downbeat bar_duration / beat_duration;
                  is_expected =
                    (\<exists>expected_pos \<in> set expected_positions.
                       \<bar>bar_position - expected_pos\<bar> * beat_duration \<le> tolerance_sec)
         in if is_expected
            then filter_hits_loop beat_duration bar_duration tolerance_sec downbeat_time
                   genre hits (filtered @ [hit], stats_kept drum_type stats)
            else filter_hits_loop beat_duration bar_duration tolerance_sec downbeat_time
                   genre hits (filtered, stats_removed drum_type stats))"

text \<open>\<^verbatim>\<open>filter_hits_by_pattern\<close>; \<^verbatim>\<open>60 / bpm\<close> raises when \<^verbatim>\<open>bpm\<close> is 0.\<close>

definition filter_hits_by_pattern ::
  "DrumHit list \<Rightarrow> real \<Rightarrow> real \<Rightarrow> int \<Rightarrow> string option \<Rightarrow> real \<Rightarrow> py_error + DrumHit list" where
  "filter_hits_by_pattern hits bpm downbeat_time time_signature genre tolerance_ms =
     (if hits = [] then Inr []
      else if bpm = 0 then Inl ZeroDivisionError
      else let beat_duration = 60 / bpm;
               bar_duration = beat_duration * of_int time_signature;
               tolerance_sec = tolerance_ms / 1000;
               stats = map (\<lambda>drum. (drum, 0, 0)) (map fst EXPECTED_POSITIONS)
      in case filter_hits_loop beat_duration bar_duration tolerance_sec downbeat_time genre
                hits ([], stats) of
           Inl e \<Rightarrow> Inl e
         | Inr (filtered, stats') \<Rightarrow> Inr filtered)"
  for bpm time_signature

section \<open>Beat-aligned drum detection and the standard analysis\<close>

text \<open>
  numpy's \<^verbatim>\<open>np.percentile(a, q)\<close> with its default linear interpolation, and
  \<^verbatim>\<open>np.median\<close>, on a non-empty list. Every call in the functions below is guarded
  by a test that the list is not empty or made on a list that cannot be empty; the value
  on the empty list is written out so that nothing is left unspecified.
\<close>

definition np_percentile :: "real list \<Rightarrow> real \<Rightarrow> real" where
  "np_percentile a q =
     (if a = [] then 0
      else let s = sort a;
               h = (real (length s) - 1) * q / 100;
               lo = nat \<lfloor>h\<rfloor>;
               hi = min (lo + 1) (length s - 1)
      in s ! lo + (h - real lo) * (s ! hi - s ! lo))"

definition np_median :: "real list \<Rightarrow> real" where
  "np_median a =
     (if a = [] then 0
      else let s = sort a; n = length s
      in if odd n then s ! (n div 2) else (s ! (n div 2 - 1) + s ! (n div 2)) / 2)"

text \<open>The three pre-filtered waveforms \<^verbatim>\<open>y_low\<close>, \<^verbatim>\<open>y_mid\<close>, \<^verbatim>\<open>y_high\<close>.\<close>

datatype band = Low | Mid | High

text \<open>The eighth-note and sixteenth-note positions between the beats.\<close>

fun eighth_note_positions :: "real list \<Rightarrow> real list" where
  "eighth_note_positions (a # b # rest) = a # (a + b) / 2 # eighth_note_positions (b # rest)"
| "eighth_note_positions rest = rest"

fun sixteenth_note_positions :: "real list \<Rightarrow> real list" where
  "sixteenth_note_positions (a # b # rest) =
     a # (a + (b - a) * (1 / 4)) # (a + (b - a) * (1 / 2)) # (a + (b - a) * (3 / 4))
       # sixteenth_note_positions (b # rest)"
| "sixteenth_note_positions rest = rest"

text \<open>
  \<^verbatim>\<open>detect_drums_beat_aligned\<close>. \<open>energy b t\<close> stands for
  \<^verbatim>\<open>get_energy_at_time\<close> on the waveform of band \<open>b\<close> (HPSS output, band-passed) at
  time \<open>t\<close>. The result is the dictionary \<^verbatim>\<open>results\<close> in its insertion order. With
  at least one beat, \<^verbatim>\<open>i % time_signature\<close> raises ZeroDivisionError for a zero time
  signature.
\<close>

definition detect_drums_beat_aligned ::
  "(band \<Rightarrow> real \<Rightarrow> real) \<Rightarrow> real list \<Rightarrow> int \<Rightarrow> py_error + (string \<times> real list) list" where
  "detect_drums_beat_aligned energy beats time_signature =
     (let low_energies = map (energy Low) beats;
          mid_energies = map (energy Mid) beats;
          high_energies = map (energy High) beats;
          low_threshold = (if low_energies \<noteq> [] then np_median low_energies * 1 else 1 / 100);
          mid_threshold = (if mid_energies \<noteq> [] then np_median mid_energies * 1 else 1 / 100);
          high_threshold =
            (if high_energies \<noteq> [] then np_median high_energies * (4 / 5) else 1 / 100);
          eighth_notes = eighth_note_positions beats;
          sixteenth_notes = sixteenth_note_positions beats
      in if beats \<noteq> [] \<and> time_signature = 0 then Inl ZeroDivisionError
      else let
          backbeat_indices =
            filter (\<lambda>i. int i mod time_signature \<in> {1, 3}) [0..<length beats];
          all_mid_energies = map (\<lambda>i. energy Mid (beats ! i)) backbeat_indices;
          all_high_at_backbeat = map (\<lambda>i. energy High (beats ! i)) backbeat_indices;
          snare_threshold_adaptive =
            (if all_mid_energies \<noteq> [] then np_percentile all_mid_energies 40
             else mid_threshold);
          clap_threshold_adaptive =
            (if all_high_at_backbeat \<noteq> [] then np_percentile all_high_at_backbeat 35
             else high_threshold);
          snare = map snd (filter (\<lambda>(i, beat_time).
                    int i mod time_signature \<in> {1, 3}
                    \<and> (energy Mid beat_time > snare_threshold_adaptive
                       \<or> (energy Mid beat_time > mid_threshold * (6 / 5)
                          \<and> energy Mid beat_time > energy Low beat_time * (3 / 10))))
                  (List.enumerate 0 beats));
          clap = map snd (filter (\<lambda>(i, beat_time).
                    int i mod time_signature \<in> {1, 3}
                    \<and> energy High beat_time > clap_threshold_adaptive)
                  (List.enumerate 0 beats));
          all_low_energies = map (energy Low) sixteenth_notes;
          kick_threshold_adaptive =
            (if all_low_energies \<noteq> [] then np_percentile all_low_energies 60
             else low_threshold);
          kick = map snd (filter (\<lambda>(idx, sixteenth_time).
                    let low_energy = energy Low sixteenth_time;
                        beat_idx = int idx div 4;
                        sub_idx = int idx mod 4;
                        beat_in_bar = beat_idx mod time_signature;
                        position_in_bar = beat_in_bar * 4 + sub_idx
                    in if position_in_bar \<in> {0, 8} then low_energy > kick_threshold_adaptive
                       else if position_in_bar \<in> {4, 12}
                       then low_energy > kick_threshold_adaptive * (6 / 5)
                       else if position_in_bar \<in> {2, 6, 10, 14}
                       then low_energy > kick_threshold_adaptive * (11 / 10)
                       else False)
                  (List.enumerate 0 sixteenth_notes));
          all_high_energies = map (energy High) eighth_notes;
          hihat_threshold_adaptive =
            (if all_high_energies \<noteq> [] then np_percentile all_high_energies 50
             else high_threshold);
          hihat = filter (\<lambda>eighth_time.
                    energy High eighth_time > hihat_threshold_adaptive
                    \<and> energy High eighth_time > energy Low eighth_time * (4 / 5))
                  eighth_notes;
          results = [(''kick'', kick), (''snare'', snare), (''hihat'', hihat),
                     (''clap'', clap), (''tom'', []), (''perc'', [])]
      in Inr (map (\<lambda>(drum_type, times). (drum_type, sort (remdups times))) results))"
  for beats time_signature

text \<open>
  The conversion loop of \<^verbatim>\<open>analyze_rhythm\<close> over \<^verbatim>\<open>beat_aligned_hits.items()\<close>;
  \<open>drums_path\<close> tells whether a separated drums stem is in use.
\<close>

definition hits_of_beat_aligned :: "bool \<Rightarrow> (string \<times> real list) list \<Rightarrow> DrumHit list" where
  "hits_of_beat_aligned drums_path beat_aligned_hits =
     concat (map (\<lambda>(drum_type, times).
        map (\<lambda>t. \<lparr>time = t, type = drum_type,
                   confidence = (if drums_path then 9 / 10 else 7 / 10),
                   features = None\<rparr>) times) beat_aligned_hits)"

text \<open>The part of \<^verbatim>\<open>RhythmAnalysisResult\<close> that the hit stages fill in.\<close>

record AnalysisHits =
  hits :: "DrumHit list"
  pattern_filter_applied :: bool
  hits_before_filter :: nat
  hits_after_filter :: nat

text \<open>
  Stages 3 to 7 of \<^verbatim>\<open>analyze_rhythm\<close>: beat-aligned detection, conversion to
  \<^verbatim>\<open>DrumHit\<close>, the stable \<^verbatim>\<open>hits.sort(key=lambda h: h.time)\<close>, and the optional
  pattern filter. \<open>detected_genre\<close> is the result of stage 6 (it depends on the sorted
  hits, the bpm and the swing only). An exception of a stage leaves the function.
\<close>

definition analyze_rhythm ::
  "(band \<Rightarrow> real \<Rightarrow> real) \<Rightarrow> bool \<Rightarrow> BeatResult \<Rightarrow> string option \<Rightarrow> bool \<Rightarrow> real
     \<Rightarrow> py_error + AnalysisHits" where
  "analyze_rhythm energy drums_path beat_result detected_genre apply_pattern_filter
       pattern_tolerance_ms =
     (case detect_drums_beat_aligned energy (beats beat_result) (time_signature beat_result) of
        Inl e \<Rightarrow> Inl e
      | Inr beat_aligned_hits \<Rightarrow>
          let hits0 = sort_key time (hits_of_beat_aligned drums_path beat_aligned_hits);
              hits_before_filter = length hits0
          in if apply_pattern_filter \<and> downbeats beat_result \<noteq> []
             then let downbeat_time = fst (hd (downbeats beat_result))
                  in case filter_hits_by_pattern hits0 (bpm beat_result) downbeat_time
                            (time_signature beat_result) detected_genre pattern_tolerance_ms of
                       Inl e \<Rightarrow> Inl e
                     | Inr filtered \<Rightarrow>
                         Inr \<lparr>hits = filtered, pattern_filter_applied = True,
                              hits_before_filter = hits_before_filter,
                              hits_after_filter = length filtered\<rparr>
             else Inr \<lparr>hits = hits0, pattern_filter_applied = False,
                       hits_before_filter = hits_before_filter,
                       hits_after_filter = length hits0\<rparr>)"

text \<open>
  The position of a drum type among the keys of \<^verbatim>\<open>results\<close>, the order in which
  \<^verbatim>\<open>analyze_rhythm\<close> walks \<^verbatim>\<open>beat_aligned_hits.items()\<close>.
\<close>

definition drum_order :: "string \<Rightarrow> nat" where
  "drum_order drum_type =
     (if drum_type = ''kick'' then 0 else if drum_type = ''snare'' then 1
      else if drum_type = ''hihat'' then 2 else if drum_type = ''clap'' then 3
      else if drum_type = ''tom'' then 4 else 5)"

section \<open>Swing estimation\<close>

text \<open>\<^verbatim>\<open>np.diff\<close> on a list of beat times.\<close>

fun np_diff :: "real list \<Rightarrow> real list" where
  "np_diff (a # b # rest) = (b - a) # np_diff (b # rest)"
| "np_diff rest = []"

text \<open>
  The inner loop of \<^verbatim>\<open>detect_swing\<close> for one beat: the hits with
  \<^verbatim>\<open>beat_start <= t < beat_end\<close>, and of these the ratios \<^verbatim>\<open>position * 100\<close> with
  \<^verbatim>\<open>0.35 < position < 0.75\<close>. The times are numpy floats: with a zero
  \<^verbatim>\<open>beat_duration\<close> the position is infinite or not a number; no comparison holds
  then and nothing is appended.
\<close>

definition offbeat_ratios_of_beat :: "real \<Rightarrow> real list \<Rightarrow> real \<Rightarrow> real \<Rightarrow> real list" where
  "offbeat_ratios_of_beat beat_duration hit_times beat_start beat_end =
     (let beat_hits = filter (\<lambda>t. t \<ge> beat_start \<and> t < beat_end) hit_times
      in map (\<lambda>hit_time. (hit_time - beat_start) / beat_duration * 100)
           (filter (\<lambda>hit_time.
                      beat_duration \<noteq> 0
                      \<and> 35 / 100 < (hit_time - beat_start) / beat_duration
                      \<and> (hit_time - beat_start) / beat_duration < 75 / 100)
              beat_hits))"

text \<open>The loop \<^verbatim>\<open>for i in range(len(beats) - 1)\<close> over consecutive beats.\<close>

fun collect_offbeat_ratios :: "real \<Rightarrow> real list \<Rightarrow> real list \<Rightarrow> real list" where
  "collect_offbeat_ratios beat_duration hit_times (a # b # rest) =
     offbeat_ratios_of_beat beat_duration hit_times a b
       @ collect_offbeat_ratios beat_duration hit_times (b # rest)"
| "collect_offbeat_ratios beat_duration hit_times rest = []"

text \<open>\<^verbatim>\<open>detect_swing\<close>; the time signature is not used by the source.\<close>

definition detect_swing :: "DrumHit list \<Rightarrow> real list \<Rightarrow> int \<Rightarrow> real" where
  "detect_swing hits beats time_signature =
     (if length hits < 4 \<or> length beats < 2 then 50
      else let hit_times = map time hits;
               beat_duration = np_median (np_diff beats);
               offbeat_ratios = collect_offbeat_ratios beat_duration hit_times beats
      in if length offbeat_ratios < 2 then 50
         else max 40 (min 75 (np_median offbeat_ratios)))"
  for hits beats time_signature

text \<open>
  The estimator in the words of the specification: over each beat interval, the
  fractional positions of the hits of the interval that lie strictly between 0.35 and
  0.75; the median of the fractions as a percentage, clamped to [40, 75]; 50 with fewer
  than two such hits. \<open>unit\<close> gives, for an interval, the length its positions are
  measured in: the specification measures within the interval, so in its length
  \<open>beat_end - beat_start\<close>.
\<close>

definition swing_by_offbeat_median ::
  "(real \<Rightarrow> real \<Rightarrow> real) \<Rightarrow> DrumHit list \<Rightarrow> real list \<Rightarrow> real" where
  "swing_by_offbeat_median unit hits beats =
     (let fractions =
            concat (map (\<lambda>(beat_start, beat_end).
               filter (\<lambda>p. unit beat_start beat_end \<noteq> 0 \<and> 35 / 100 < p \<and> p < 75 / 100)
                 (map (\<lambda>t. (t - beat_start) / unit beat_start beat_end)
                    (filter (\<lambda>t. beat_start \<le> t \<and> t < beat_end) (map time hits))))
              (zip beats (tl beats)))
      in if length fractions < 2 then 50
         else max 40 (min 75 (100 * np_median fractions)))"
  for hits beats

section \<open>Adaptive rescan\<close>

text \<open>Python's \<^verbatim>\<open>round(x, ndigits)\<close>, in exact arithmetic.\<close>

definition py_round_to :: "real \<Rightarrow> nat \<Rightarrow> real" where
  "py_round_to x ndigits = of_int (py_round (x * 10 ^ ndigits)) / 10 ^ ndigits"

text \<open>
  An entry of the parsed \<^verbatim>\<open>existing_hits\<close> JSON array: its \<^verbatim>\<open>'time'\<close> key, if
  present, and its \<^verbatim>\<open>'type'\<close>. An entry of \<^verbatim>\<open>new_hits\<close>; its keys clash with the
  fields of \<open>DrumHit\<close> and carry the prefix \<open>new_\<close> here.
\<close>

record ExistingHit =
  existing_time :: "real option"
  existing_type :: string

record AdaptiveHit =
  new_time :: real
  new_type :: string
  new_confidence :: real
  new_bar :: int
  new_grid_position :: int
  new_energy :: real
  new_threshold_used :: real
  new_is_quiet_bar :: bool

record AdaptiveResult =
  total_bars :: int
  bars_scanned :: nat
  quiet_bars :: "int list"
  new_hits :: "AdaptiveHit list"

text \<open>
  \<^verbatim>\<open>target_bars\<close>: the literal "quiet", a non-empty string (with the bar numbers it
  parses to, or \<open>None\<close> when \<^verbatim>\<open>int\<close> raises on one of its parts), or absent or empty.
\<close>

datatype TargetBars = TargetQuiet | TargetList "int list option" | TargetAll

text \<open>The tables local to \<^verbatim>\<open>detect_adaptive\<close>, in their insertion order.\<close>

definition BASE_THRESHOLDS :: "(string \<times> real) list" where
  "BASE_THRESHOLDS =
     [(''kick'', 10 / 1000), (''snare'', 8 / 1000), (''hihat'', 5 / 1000),
      (''clap'', 6 / 1000), (''tom'', 8 / 1000), (''perc'', 4 / 1000)]"

definition ADAPTIVE_EXPECTED_POSITIONS :: "(string \<times> int list) list" where
  "ADAPTIVE_EXPECTED_POSITIONS =
     [(''kick'', [0, 8]), (''snare'', [4, 12]), (''hihat'', [0, 2, 4, 6, 8, 10, 12, 14]),
      (''clap'', [4, 12]), (''tom'', []), (''perc'', [0, 2, 4, 6, 8, 10, 12, 14])]"

text \<open>
  The loop \<^verbatim>\<open>for grid_pos in positions\<close> on the state (new_hits, existing_times);
  the set \<^verbatim>\<open>existing_times\<close> is a list here, used for membership tests only.
  \<open>window_energy drum_type t\<close> stands for \<^verbatim>\<open>get_window_energy\<close> on the band-passed
  waveform of the drum type.
\<close>

fun scan_positions ::
  "(string \<Rightarrow> real \<Rightarrow> real) \<Rightarrow> real \<Rightarrow> real \<Rightarrow> real \<Rightarrow> int \<Rightarrow> bool \<Rightarrow> string \<Rightarrow> real \<Rightarrow> int list
     \<Rightarrow> AdaptiveHit list \<times> real list \<Rightarrow> AdaptiveHit list \<times> real list" where
  "scan_positions window_energy duration bar_start grid_duration bar_num is_quiet drum_type
       threshold [] state = state"
| "scan_positions window_energy duration bar_start grid_duration bar_num is_quiet drum_type
       threshold (grid_pos # positions) (hits_so_far, existing_times) =
     (let hit_time = bar_start + of_int grid_pos * grid_duration
      in if hit_time < 0 \<or> hit_time \<ge> duration
         then scan_positions window_energy duration bar_start grid_duration bar_num is_quiet
                drum_type threshold positions (hits_so_far, existing_times)
         else if \<exists>t \<in> set existing_times. \<bar>t - hit_time\<bar> < 3 / 100
         then scan_positions window_energy duration bar_start grid_duration bar_num is_quiet
                drum_type threshold positions (hits_so_far, existing_times)
         else let e = window_energy drum_type hit_time
         in if e > threshold
            then scan_positions window_energy duration bar_start grid_duration bar_num
                   is_quiet drum_type threshold positions
                   (hits_so_far @
                      [\<lparr>new_time = py_round_to hit_time 4, new_type = drum_type,
                        new_confidence = py_round_to (min (e / threshold) 1) 3,
                        new_bar = bar_num, new_grid_position = grid_pos,
                        new_energy = py_round_to e 5,
                        new_threshold_used = py_round_to threshold 5,
                        new_is_quiet_bar = is_quiet\<rparr>],
                    py_round_to hit_time 3 # existing_times)
            else scan_positions window_energy duration bar_start grid_duration bar_num
                   is_quiet drum_type threshold positions (hits_so_far, existing_times))"

text \<open>
  The loop \<^verbatim>\<open>for drum_type, positions in EXPECTED_POSITIONS.items()\<close>;
  \<^verbatim>\<open>BASE_THRESHOLDS[drum_type]\<close> raises KeyError on a missing key.
\<close>

fun scan_drums ::
  "(string \<Rightarrow> real \<Rightarrow> real) \<Rightarrow> real \<Rightarrow> real \<Rightarrow> real \<Rightarrow> int \<Rightarrow> bool \<Rightarrow> real
     \<Rightarrow> (string \<times> int list) list \<Rightarrow> AdaptiveHit list \<times> real list
     \<Rightarrow> py_error + (AdaptiveHit list \<times> real list)" where
  "scan_drums window_energy duration bar_start grid_duration bar_num is_quiet
       threshold_multiplier [] state = Inr state"
| "scan_drums window_energy duration bar_start grid_duration bar_num is_quiet
       threshold_multiplier ((drum_type, positions) # items) state =
     (if positions = []
      then scan_drums window_energy duration bar_start grid_duration bar_num is_quiet
             threshold_multiplier items state
      else case map_of BASE_THRESHOLDS drum_type of
             None \<Rightarrow> Inl KeyError
           | Some base \<Rightarrow>
               scan_drums window_energy duration bar_start grid_duration bar_num is_quiet
                 threshold_multiplier items
                 (scan_positions window_energy duration bar_start grid_duration bar_num
                    is_quiet drum_type (base * threshold_multiplier) positions state))"

text \<open>
  The loop \<^verbatim>\<open>for bar_num in bars_to_scan\<close>; \<^verbatim>\<open>1.0 / sensitivity_boost\<close> raises
  ZeroDivisionError in a quiet bar when the boost is 0. \<open>bar_energies\<close> holds, for each
  bar, its number, its RMS and whether it is quiet.
\<close>

fun scan_bars ::
  "(string \<Rightarrow> real \<Rightarrow> real) \<Rightarrow> real \<Rightarrow> real \<Rightarrow> real \<Rightarrow> real \<Rightarrow> real \<Rightarrow> (int \<times> real \<times> bool) list
     \<Rightarrow> int list \<Rightarrow> AdaptiveHit list \<times> real list
     \<Rightarrow> py_error + (AdaptiveHit list \<times> real list)" where
  "scan_bars window_energy duration downbeat_offset bar_duration grid_duration
       sensitivity_boost bar_energies [] state = Inr state"
| "scan_bars window_energy duration downbeat_offset bar_duration grid_duration
       sensitivity_boost bar_energies (bar_num # bars_to_scan) state =
     (let bar_idx = bar_num - 1;
          bar_start = downbeat_offset + of_int bar_idx * bar_duration;
          is_quiet = (case map_of bar_energies bar_num of
                        Some (rms, quiet) \<Rightarrow> quiet
                      | None \<Rightarrow> False)
      in if is_quiet \<and> sensitivity_boost = 0 then Inl ZeroDivisionError
      else let threshold_multiplier = (if is_quiet then 1 / sensitivity_boost else 1)
      in case scan_drums window_energy duration bar_start grid_duration bar_num is_quiet
                threshold_multiplier ADAPTIVE_EXPECTED_POSITIONS state of
           Inl e \<Rightarrow> Inl e
         | Inr state' \<Rightarrow>
             scan_bars window_energy duration downbeat_offset bar_duration grid_duration
               sensitivity_boost bar_energies bars_to_scan state')"

text \<open>
  \<^verbatim>\<open>detect_adaptive\<close> from the loaded audio on: \<open>n_samples\<close> is \<^verbatim>\<open>len(y)\<close>, the length of
  the waveform at 44100 Hz, \<open>bar_rms start_sample end_sample\<close> the RMS of the percussive
  waveform on that slice. Every exception is caught by the endpoint and answered with
  \<^verbatim>\<open>{'success': False}\<close>: the value \<open>Inl\<close>. The relative energies of the bars, which
  only go into the response, are left out.
\<close>

definition detect_adaptive ::
  "(int \<Rightarrow> int \<Rightarrow> real) \<Rightarrow> (string \<Rightarrow> real \<Rightarrow> real) \<Rightarrow> int \<Rightarrow> real \<Rightarrow> real \<Rightarrow> int
     \<Rightarrow> ExistingHit list \<Rightarrow> TargetBars \<Rightarrow> real \<Rightarrow> py_error + AdaptiveResult" where
  "detect_adaptive bar_rms window_energy n_samples bpm downbeat_offset time_signature
       existing target_bars sensitivity_boost =
     (let sr = 44100 :: real;
          duration = of_int n_samples / sr;
          existing_times =
            map (\<lambda>h. py_round_to (case existing_time h of Some t \<Rightarrow> t | None \<Rightarrow> 0) 3) existing
      in if bpm = 0 then Inl ZeroDivisionError
      else let beat_duration = 60 / bpm;
               bar_duration = beat_duration * of_int time_signature
      in if bar_duration = 0 then Inl ZeroDivisionError
      else let
          total_bars = py_int (duration / bar_duration) + 1;
          bar_rmss = map (\<lambda>bar_idx.
              let bar_start = downbeat_offset + of_int bar_idx * bar_duration;
                  bar_end = bar_start + bar_duration;
                  start_sample = max 0 (py_int (bar_start * sr));
                  end_sample = min n_samples (py_int (bar_end * sr))
              in if end_sample > start_sample
                 then (bar_idx + 1, bar_rms start_sample end_sample)
                 else (bar_idx + 1, 0)) [0..total_bars - 1];
          all_rms = filter (\<lambda>rms. rms > 0) (map snd bar_rmss);
          median_rms = (if all_rms \<noteq> [] then np_median all_rms else 1 / 100);
          bar_energies = map (\<lambda>(b, rms). (b, rms, rms < median_rms * (6 / 10))) bar_rmss;
          quiet_bars = map fst (filter (\<lambda>(b, rms, quiet). quiet) bar_energies);
          bars_to_scan =
            (case target_bars of
               TargetQuiet \<Rightarrow> quiet_bars
             | TargetList (Some bars) \<Rightarrow> bars
             | TargetList None \<Rightarrow> [1..total_bars]
             | TargetAll \<Rightarrow> [1..total_bars]);
          grid_duration = beat_duration / 4
      in case scan_bars window_energy duration downbeat_offset bar_duration grid_duration
                sensitivity_boost bar_energies bars_to_scan ([], existing_times) of
           Inl e \<Rightarrow> Inl e
         | Inr (found, existing_times') \<Rightarrow>
             Inr \<lparr>total_bars = total_bars, bars_scanned = length bars_to_scan,
                  quiet_bars = quiet_bars, new_hits = sort_key new_time found\<rparr>)"
  for bpm time_signature

text \<open>
  What the scan keeps for every hit it emits: the hit's time is its grid time
  \<open>downbeat_offset + (bar - 1) * bar_duration + grid_position * grid_duration\<close> rounded to
  four places, and the grid time is at least 30 ms away from each of the given times.
\<close>

definition grid_time_clear :: "real \<Rightarrow> real \<Rightarrow> real \<Rightarrow> real list \<Rightarrow> AdaptiveHit \<Rightarrow> bool" where
  "grid_time_clear downbeat_offset bar_duration grid_duration taken h =
     (let raw = downbeat_offset + of_int (new_bar h - 1) * bar_duration
                  + of_int (new_grid_position h) * grid_duration
      in new_time h = py_round_to raw 4 \<and> list_all (\<lambda>t. 3 / 100 \<le> \<bar>t - raw\<bar>) taken)"

section \<open>The quantizer in double precision\<close>

text \<open>
  Idempotence of the quantizer is a statement about the bits of the times, so here the
  floats are not idealised: a double is the real number it denotes, and every float
  operation of the source is the exact operation followed by \<open>fl64\<close>, the rounding of
  IEEE 754 binary64 to the nearest double, ties to the even mantissa. Subnormal numbers are
  covered (the exponent is held at -1022); infinities and NaN are not (a result of
  magnitude \<open>2 ^ 1024\<close> or more is left as the rounded real), and the two zeros are one.
\<close>

text \<open>The number of binary digits of a positive integer.\<close>

function bitlen :: "int \<Rightarrow> int" where
  "bitlen n = (if n \<le> 0 then 0 else 1 + bitlen (n div 2))"
  by pat_completeness auto
termination
  by (relation "measure nat") auto

declare bitlen.simps [simp del]

text \<open>The binary exponent of a positive real: \<open>2 powi e \<le> x < 2 powi (e + 1)\<close>.\<close>

definition ilog2 :: "real \<Rightarrow> int" where
  "ilog2 x = (if 1 \<le> x then bitlen \<lfloor>x\<rfloor> - 1 else - bitlen (\<lceil>1 / x\<rceil> - 1))"

definition fl64 :: "real \<Rightarrow> real" where
  "fl64 x =
     (if x = 0 then 0
      else let e = max (ilog2 \<bar>x\<bar>) (- 1022); q = 2 powi (e - 52)
      in of_int (py_round (x / q)) * q)"

text \<open>
  The grid spacing and the swing offset as \<^verbatim>\<open>quantize_to_grid\<close> computes them:
  \<^verbatim>\<open>60.0 / bpm\<close>, \<^verbatim>\<open>beat_duration / subdivision\<close>, \<^verbatim>\<open>swing / 100.0\<close>,
  \<^verbatim>\<open>(swing_ratio - 0.5) * grid_duration\<close>.
\<close>

definition grid_duration_fl :: "real \<Rightarrow> int \<Rightarrow> real" where
  "grid_duration_fl bpm subdivision =
     (let beat_duration = fl64 (60 / bpm)
      in fl64 (beat_duration / fl64 (of_int subdivision)))"
  for bpm

definition swing_offset_fl :: "real \<Rightarrow> real \<Rightarrow> real" where
  "swing_offset_fl swing grid_duration =
     (let swing_ratio = fl64 (swing / 100)
      in fl64 (fl64 (swing_ratio - 1 / 2) * grid_duration))"

text \<open>
  The grid time of a step: \<^verbatim>\<open>grid_index * grid_duration + swing_offset\<close> for an odd
  index, \<^verbatim>\<open>grid_index * grid_duration\<close> for an even one, then
  \<^verbatim>\<open>grid_time += downbeat_offset\<close>. The integer index is converted to a double for
  the product.
\<close>

definition grid_time_fl :: "real \<Rightarrow> real \<Rightarrow> real \<Rightarrow> int \<Rightarrow> real" where
  "grid_time_fl grid_duration swing_offset downbeat_offset grid_index =
     (let grid_time =
            (if grid_index mod 2 = 1
             then fl64 (fl64 (fl64 (of_int grid_index) * grid_duration) + swing_offset)
             else fl64 (fl64 (of_int grid_index) * grid_duration))
      in fl64 (grid_time + downbeat_offset))"

text \<open>The time computations of the loop body, on one hit.\<close>

definition quantize_hit_fl :: "real \<Rightarrow> real \<Rightarrow> real \<Rightarrow> real \<Rightarrow> DrumHit \<Rightarrow> DrumHit" where
  "quantize_hit_fl grid_duration swing_offset downbeat_offset quantize_strength hit =
     (let rel_time = fl64 (time hit - downbeat_offset);
          grid_index = py_round (fl64 (rel_time / grid_duration));
          grid_time = grid_time_fl grid_duration swing_offset downbeat_offset grid_index;
          quantized_time =
            fl64 (time hit + fl64 (fl64 (grid_time - time hit) * quantize_strength))
      in \<lparr>time = quantized_time, type = type hit, confidence = confidence hit,
          features = features hit\<rparr>)"

text \<open>
  The quantized hits of \<^verbatim>\<open>quantize_to_grid\<close> in double precision; the grid addresses,
  which do not enter the times, are left out. The divisions raise ZeroDivisionError on a
  zero divisor: \<^verbatim>\<open>60.0 / bpm\<close>, \<^verbatim>\<open>beat_duration / subdivision\<close>, and, for the
  first hit, \<^verbatim>\<open>rel_time / grid_duration\<close> when the grid duration has underflowed to 0.
  (An integer too large for a double makes Python raise OverflowError at the conversion;
  that is outside the model, whose theorems are at subdivision 4 and at grid indices below
  \<open>2 ^ 53\<close>.)
\<close>

definition quantize_to_grid_fl ::
  "DrumHit list \<Rightarrow> real \<Rightarrow> real \<Rightarrow> real \<Rightarrow> real \<Rightarrow> int \<Rightarrow> py_error + DrumHit list" where
  "quantize_to_grid_fl hits bpm downbeat_offset swing quantize_strength subdivision =
     (if bpm = 0 then Inl ZeroDivisionError
      else if subdivision = 0 then Inl ZeroDivisionError
      else let grid_duration = grid_duration_fl bpm subdivision;
               swing_offset = swing_offset_fl swing grid_duration
      in if hits \<noteq> [] \<and> grid_duration = 0 then Inl ZeroDivisionError
         else Inr (map (quantize_hit_fl grid_duration swing_offset downbeat_offset
                          quantize_strength) hits))"
  for hits bpm

section \<open>Properties of the quantizer\<close>

lemma py_round_nearest: "\<bar>x - of_int (py_round x)\<bar> \<le> \<bar>x - of_int j\<bar>"
proof -
  let ?f = "\<lfloor>x\<rfloor>"
  have fl: "of_int ?f \<le> x" "x < of_int ?f + 1" by linarith+
  have near: "\<bar>x - of_int (py_round x)\<bar> \<le> 1 / 2"
    using fl by (auto simp: py_round_def Let_def)
  show ?thesis
  proof (cases "j \<le> ?f")
    case True
    then have "(of_int j :: real) \<le> of_int ?f" by simp
    then have "x - of_int ?f \<le> \<bar>x - of_int j\<bar>" using fl by linarith
    moreover have "\<bar>x - of_int (py_round x)\<bar> \<le> x - of_int ?f"
      using fl by (auto simp: py_round_def Let_def)
    ultimately show ?thesis by linarith
  next
    case False
    then have "?f + 1 \<le> j" by simp
    then have "(of_int (?f + 1) :: real) \<le> of_int j" by (simp only: of_int_le_iff)
    then have "of_int ?f + 1 - x \<le> \<bar>x - of_int j\<bar>" using fl by simp
    moreover have "\<bar>x - of_int (py_round x)\<bar> \<le> of_int ?f + 1 - x"
      using fl by (auto simp: py_round_def Let_def)
    ultimately show ?thesis by linarith
  qed
qed

lemma py_round_shift:
  assumes "\<bar>d\<bar> < 1 / 2"
  shows "py_round (of_int k + d) = k"
proof (cases "0 \<le> d")
  case True
  then have "\<lfloor>of_int k + d\<rfloor> = k" using assms by (intro floor_unique) auto
  then show ?thesis using assms True by (simp add: py_round_def Let_def)
next
  case False
  then have "\<lfloor>of_int k + d\<rfloor> = k - 1" using assms by (intro floor_unique) auto
  then show ?thesis using assms False by (simp add: py_round_def Let_def)
qed

lemma quantize_hit_frame:
  "type (fst (quantize_hit bd gd so off st sub h)) = type h"
  "confidence (fst (quantize_hit bd gd so off st sub h)) = confidence h"
  "features (fst (quantize_hit bd gd so off st sub h)) = features h"
  by (simp_all add: quantize_hit_def Let_def)

lemma quantize_hit_time:
  "time (fst (quantize_hit bd gd so off st sub h)) =
     time h + ((if odd (py_round ((time h - off) / gd))
                then of_int (py_round ((time h - off) / gd)) * gd + so
                else of_int (py_round ((time h - off) / gd)) * gd) + off - time h) * st"
  by (simp add: quantize_hit_def Let_def odd_iff_mod_2_eq_one)

lemma quantize_to_grid_run:
  fixes bpm :: real and hits :: "DrumHit list"
  assumes "bpm \<noteq> 0" and "subdivision \<noteq> 0"
  shows "quantize_to_grid hits bpm downbeat_offset swing quantize_strength subdivision =
           Inr (map (\<lambda>h. fst (quantize_hit (60 / bpm) (60 / bpm / of_int subdivision)
                                ((swing / 100 - 1 / 2) * (60 / bpm / of_int subdivision))
                                downbeat_offset quantize_strength subdivision h)) hits,
                map (\<lambda>h. snd (quantize_hit (60 / bpm) (60 / bpm / of_int subdivision)
                                ((swing / 100 - 1 / 2) * (60 / bpm / of_int subdivision))
                                downbeat_offset quantize_strength subdivision h)) hits)"
  using assms by (simp only: quantize_to_grid_def Let_def if_False map_map comp_def)

text \<open>
  C10. \<^verbatim>\<open>quantize_to_grid\<close> returns one output hit per input hit, in the same order,
  and the type, confidence and features of each output hit are those of the input hit;
  only the time may change. The call returns whenever its two divisors \<^verbatim>\<open>bpm\<close> and
  \<^verbatim>\<open>subdivision\<close> are non-zero.
\<close>

theorem quantize_to_grid_frame:
  fixes bpm :: real and hits :: "DrumHit list"
  assumes "bpm \<noteq> 0" and "subdivision \<noteq> 0"
  shows "\<exists>qs gs. quantize_to_grid hits bpm downbeat_offset swing quantize_strength subdivision
                   = Inr (qs, gs)
           \<and> length qs = length hits
           \<and> map type qs = map type hits
           \<and> map confidence qs = map confidence hits
           \<and> map features qs = map features hits"
  using assms by (simp add: quantize_to_grid_def Let_def quantize_hit_frame comp_def)

theorem quantize_to_grid_frame_witness:
  "\<exists>qs gs. quantize_to_grid
       [\<lparr>time = 13 / 100, type = ''kick'', confidence = 9 / 10, features = None\<rparr>,
        \<lparr>time = 1 / 10, type = ''hihat'', confidence = 7 / 10, features = Some [(''zcr'', 1 / 5)]\<rparr>]
       120 0 50 1 4 = Inr (qs, gs)
     \<and> length qs = 2
     \<and> map type qs = [''kick'', ''hihat'']
     \<and> map confidence qs = [9 / 10, 7 / 10]
     \<and> map features qs = [None, Some [(''zcr'', 1 / 5)]]"
  using quantize_to_grid_frame [of 120 4
       "[\<lparr>time = 13 / 100, type = ''kick'', confidence = 9 / 10, features = None\<rparr>,
         \<lparr>time = 1 / 10, type = ''hihat'', confidence = 7 / 10, features = Some [(''zcr'', 1 / 5)]\<rparr>]"
       0 50 1]
  by (simp add: numeral_2_eq_2)


text \<open>
  C5. For \<open>bpm > 0\<close> and subdivision 4 the quantizer returns, and every hit is
  snapped to a nearest grid step of duration \<open>60 / bpm / 4\<close> counted from the
  downbeat offset: the step index \<open>k\<close> is an integer nearest to
  \<open>(time - offset) / step\<close>, the swing offset \<open>(swing / 100 - 1 / 2) * step\<close> is added
  exactly when \<open>k\<close> is odd, and the output time is
  \<open>original * (1 - strength) + snapped * strength\<close>. It holds for every swing and
  strength, in particular for swing in [0, 100] and strength in [0, 1].
\<close>

theorem quantize_to_grid_snap:
  fixes bpm :: real and hits :: "DrumHit list"
  assumes "0 < bpm"
  shows "\<exists>qs gs. quantize_to_grid hits bpm downbeat_offset swing quantize_strength 4 = Inr (qs, gs)
           \<and> list_all2 (\<lambda>hit q. \<exists>k::int.
                 (\<forall>j::int. \<bar>(time hit - downbeat_offset) / (60 / bpm / 4) - of_int k\<bar>
                              \<le> \<bar>(time hit - downbeat_offset) / (60 / bpm / 4) - of_int j\<bar>)
                 \<and> time q =
                     time hit * (1 - quantize_strength)
                     + (downbeat_offset + of_int k * (60 / bpm / 4)
                        + (if odd k then (swing / 100 - 1 / 2) * (60 / bpm / 4) else 0))
                       * quantize_strength) hits qs"
proof -
  let ?g = "60 / bpm / 4"
  let ?so = "(swing / 100 - 1 / 2) * ?g"
  let ?q = "quantize_hit (60 / bpm) ?g ?so downbeat_offset quantize_strength 4"
  have four: "real_of_int 4 = 4" by simp
  have run: "quantize_to_grid hits bpm downbeat_offset swing quantize_strength 4
               = Inr (map (\<lambda>h. fst (?q h)) hits, map (\<lambda>h. snd (?q h)) hits)"
    using assms quantize_to_grid_run [of bpm 4 hits downbeat_offset swing quantize_strength]
    unfolding four by simp
  have one: "\<exists>k::int.
          (\<forall>j::int. \<bar>(time hit - downbeat_offset) / ?g - of_int k\<bar>
                      \<le> \<bar>(time hit - downbeat_offset) / ?g - of_int j\<bar>)
          \<and> time (fst (?q hit)) =
              time hit * (1 - quantize_strength)
              + (downbeat_offset + of_int k * ?g + (if odd k then ?so else 0)) * quantize_strength"
    for hit
  proof (intro exI conjI allI)
    show "\<bar>(time hit - downbeat_offset) / ?g
            - of_int (py_round ((time hit - downbeat_offset) / ?g))\<bar>
          \<le> \<bar>(time hit - downbeat_offset) / ?g - of_int j\<bar>" for j
      by (rule py_round_nearest)
    show "time (fst (?q hit)) =
            time hit * (1 - quantize_strength)
            + (downbeat_offset
               + of_int (py_round ((time hit - downbeat_offset) / ?g)) * ?g
               + (if odd (py_round ((time hit - downbeat_offset) / ?g)) then ?so else 0))
              * quantize_strength"
      unfolding quantize_hit_time by (simp add: algebra_simps)
  qed
  have "list_all2 (\<lambda>hit q. \<exists>k::int.
                 (\<forall>j::int. \<bar>(time hit - downbeat_offset) / ?g - of_int k\<bar>
                              \<le> \<bar>(time hit - downbeat_offset) / ?g - of_int j\<bar>)
                 \<and> time q =
                     time hit * (1 - quantize_strength)
                     + (downbeat_offset + of_int k * ?g + (if odd k then ?so else 0))
                       * quantize_strength) hits (map (\<lambda>h. fst (?q h)) hits)"
    unfolding list_all2_map2 by (rule list_all2_refl) (rule one)
  with run show ?thesis by blast
qed

text \<open>A run at 120 bpm, swing 60, strength 1/2: the hit at 0.13 s moves to 0.13375 s.\<close>

theorem quantize_to_grid_snap_witness:
  "\<exists>qs gs. quantize_to_grid
        [\<lparr>time = 13 / 100, type = ''kick'', confidence = 9 / 10, features = None\<rparr>]
        120 0 60 (1 / 2) 4 = Inr (qs, gs)
     \<and> map time qs = [107 / 800]"
proof -
  let ?h = "\<lparr>time = 13 / 100, type = ''kick'', confidence = 9 / 10, features = None\<rparr>"
  obtain qs gs where run: "quantize_to_grid [?h] 120 0 60 (1 / 2) 4 = Inr (qs, gs)"
      and all: "list_all2 (\<lambda>hit q. \<exists>k::int.
                 (\<forall>j::int. \<bar>(time hit - 0) / (60 / 120 / 4) - of_int k\<bar>
                              \<le> \<bar>(time hit - 0) / (60 / 120 / 4) - of_int j\<bar>)
                 \<and> time q =
                     time hit * (1 - 1 / 2)
                     + (0 + of_int k * (60 / 120 / 4)
                        + (if odd k then (60 / 100 - 1 / 2) * (60 / 120 / 4) else 0))
                       * (1 / 2)) [?h] qs"
    using quantize_to_grid_snap [of 120 "[?h]" 0 60 "1 / 2"] by auto
  from all obtain q k where qs: "qs = [q]"
      and near: "\<forall>j::int. \<bar>(13 / 100 - 0) / (60 / 120 / 4) - real_of_int k\<bar>
                       \<le> \<bar>(13 / 100 - 0) / (60 / 120 / 4) - real_of_int j\<bar>"
      and t: "time q = 13 / 100 * (1 - 1 / 2)
                + (0 + of_int k * (60 / 120 / 4)
                   + (if odd k then (60 / 100 - 1 / 2) * (60 / 120 / 4) else 0)) * (1 / 2)"
    by (auto simp: list_all2_Cons1)
  from near have "\<bar>(13 / 100 - 0) / (60 / 120 / 4) - real_of_int k\<bar>
                       \<le> \<bar>(13 / 100 - 0) / (60 / 120 / 4) - real_of_int 1\<bar>" by (rule spec)
  then have "\<bar>26 / 25 - real_of_int k\<bar> \<le> 1 / 25" by simp
  then have "1 \<le> real_of_int k \<and> real_of_int k < 2" by linarith
  then have "1 \<le> k \<and> k < 2" by simp
  then have "k = 1" by simp
  with run qs t show ?thesis by simp
qed

section \<open>Properties of the half-time correction\<close>

lemma length_interpolate_beats:
  "length (interpolate_beats old_beats) =
     (if old_beats = [] then 0 else 2 * length old_beats - 1)"
  by (induction old_beats rule: interpolate_beats.induct) auto

lemma interpolate_beats_even:
  "i < length old_beats \<Longrightarrow> interpolate_beats old_beats ! (2 * i) = old_beats ! i"
proof (induction old_beats arbitrary: i rule: interpolate_beats.induct)
  case (1 a b old_beats)
  then show ?case by (cases i) auto
qed auto

lemma interpolate_beats_odd:
  "Suc i < length old_beats \<Longrightarrow>
     interpolate_beats old_beats ! (2 * i + 1) = (old_beats ! i + old_beats ! Suc i) / 2"
proof (induction old_beats arbitrary: i rule: interpolate_beats.induct)
  case (1 a b old_beats)
  then show ?case by (cases i) auto
qed auto

lemma rule_A_fires:
  assumes "bpm beat_result < 95" and "bpm_confidence beat_result < 1 / 2"
  shows "correct_half_time_spectral hihat_onsets y sr beat_result =
           (LowConfidenceHeuristic,
            \<lparr>bpm = bpm beat_result * 2,
             bpm_confidence = min (bpm_confidence beat_result * (13 / 10)) (7 / 10),
             beats = interpolate_beats (beats beat_result),
             downbeats = rebuild_downbeats (interpolate_beats (beats beat_result)),
             time_signature = time_signature beat_result\<rparr>)"
  using assms by (simp add: correct_half_time_spectral_def Let_def)

lemma rule_A_path:
  "fst (correct_half_time_spectral hihat_onsets y sr beat_result) = LowConfidenceHeuristic
     \<longleftrightarrow> bpm beat_result < 95 \<and> bpm_confidence beat_result < 1 / 2"
  by (auto simp: correct_half_time_spectral_def spectral_check_def Let_def
           split: sum.splits)

text \<open>
  C1. Half-time rule A. For every result of the fallback beat tracker with
  \<open>bpm < 95\<close> and \<open>confidence < 0.5\<close> the correction takes the low-confidence
  branch: the bpm is doubled, the new beat list holds the old beats at the even indices
  and the midpoint of each pair of consecutive beats at the odd ones, the downbeats are
  rebuilt with \<open>beat_position = (i mod time_signature) + 1\<close> over the new beats (the
  source writes \<^verbatim>\<open>i % 4\<close>, and the fallback tracker always reports 4/4), and the new
  confidence is at most 0.7. The rule fires at bpm 94.999 with confidence 0.499 and does
  not fire at bpm 95.0 with confidence 0.5.
\<close>

theorem half_time_rule_A:
  assumes fallback: "beat_result = detect_beats_librosa_result tempo beat_times confidence_estimate"
  shows "(bpm beat_result < 95 \<and> bpm_confidence beat_result < 1 / 2 \<longrightarrow>
            (\<exists>r. correct_half_time_spectral hihat_onsets y sr beat_result
                    = (LowConfidenceHeuristic, r)
               \<and> bpm r = 2 * bpm beat_result
               \<and> length (beats r) =
                   (if beats beat_result = [] then 0 else 2 * length (beats beat_result) - 1)
               \<and> (\<forall>i. i < length (beats beat_result) \<longrightarrow>
                      beats r ! (2 * i) = beats beat_result ! i)
               \<and> (\<forall>i. Suc i < length (beats beat_result) \<longrightarrow>
                      beats r ! (2 * i + 1)
                        = (beats beat_result ! i + beats beat_result ! Suc i) / 2)
               \<and> downbeats r =
                   map (\<lambda>i. (beats r ! i, int i mod time_signature beat_result + 1))
                     [0..<length (beats r)]
               \<and> time_signature r = time_signature beat_result
               \<and> bpm_confidence r \<le> 7 / 10))
       \<and> (bpm beat_result = 94999 / 1000 \<and> bpm_confidence beat_result = 499 / 1000 \<longrightarrow>
            fst (correct_half_time_spectral hihat_onsets y sr beat_result)
              = LowConfidenceHeuristic)
       \<and> (bpm beat_result = 95 \<and> bpm_confidence beat_result = 1 / 2 \<longrightarrow>
            fst (correct_half_time_spectral hihat_onsets y sr beat_result)
              \<noteq> LowConfidenceHeuristic)"
proof (intro conjI impI)
  assume low: "bpm beat_result < 95 \<and> bpm_confidence beat_result < 1 / 2"
  have ts: "time_signature beat_result = 4"
    by (simp add: fallback detect_beats_librosa_result_def)
  let ?r = "snd (correct_half_time_spectral hihat_onsets y sr beat_result)"
  have run: "correct_half_time_spectral hihat_onsets y sr beat_result
               = (LowConfidenceHeuristic,
                  \<lparr>bpm = bpm beat_result * 2,
                   bpm_confidence = min (bpm_confidence beat_result * (13 / 10)) (7 / 10),
                   beats = interpolate_beats (beats beat_result),
                   downbeats = rebuild_downbeats (interpolate_beats (beats beat_result)),
                   time_signature = time_signature beat_result\<rparr>)"
    using low by (intro rule_A_fires) simp_all
  show "\<exists>r. correct_half_time_spectral hihat_onsets y sr beat_result
                    = (LowConfidenceHeuristic, r)
               \<and> bpm r = 2 * bpm beat_result
               \<and> length (beats r) =
                   (if beats beat_result = [] then 0 else 2 * length (beats beat_result) - 1)
               \<and> (\<forall>i. i < length (beats beat_result) \<longrightarrow>
                      beats r ! (2 * i) = beats beat_result ! i)
               \<and> (\<forall>i. Suc i < length (beats beat_result) \<longrightarrow>
                      beats r ! (2 * i + 1)
                        = (beats beat_result ! i + beats beat_result ! Suc i) / 2)
               \<and> downbeats r =
                   map (\<lambda>i. (beats r ! i, int i mod time_signature beat_result + 1))
                     [0..<length (beats r)]
               \<and> time_signature r = time_signature beat_result
               \<and> bpm_confidence r \<le> 7 / 10"
  proof (intro exI [of _ "snd (correct_half_time_spectral hihat_onsets y sr beat_result)"] conjI allI impI)
    show "correct_half_time_spectral hihat_onsets y sr beat_result = (LowConfidenceHeuristic, ?r)"
      by (simp add: run)
    show "bpm ?r = 2 * bpm beat_result" by (simp add: run)
    show "length (beats ?r) =
            (if beats beat_result = [] then 0 else 2 * length (beats beat_result) - 1)"
      by (simp add: run length_interpolate_beats)
    show "beats ?r ! (2 * i) = beats beat_result ! i" if "i < length (beats beat_result)" for i
      using that by (simp add: run interpolate_beats_even)
    show "beats ?r ! (2 * i + 1) = (beats beat_result ! i + beats beat_result ! Suc i) / 2"
      if "Suc i < length (beats beat_result)" for i
      using that interpolate_beats_odd [of i "beats beat_result"] by (simp add: run)
    show "downbeats ?r =
            map (\<lambda>i. (beats ?r ! i, int i mod time_signature beat_result + 1))
              [0..<length (beats ?r)]"
      by (simp add: run ts rebuild_downbeats_def)
    show "time_signature ?r = time_signature beat_result" by (simp add: run)
    show "bpm_confidence ?r \<le> 7 / 10" by (simp add: run)
  qed
next
  assume "bpm beat_result = 94999 / 1000 \<and> bpm_confidence beat_result = 499 / 1000"
  then show "fst (correct_half_time_spectral hihat_onsets y sr beat_result)
               = LowConfidenceHeuristic"
    unfolding rule_A_path by simp
next
  assume "bpm beat_result = 95 \<and> bpm_confidence beat_result = 1 / 2"
  then show "fst (correct_half_time_spectral hihat_onsets y sr beat_result)
               \<noteq> LowConfidenceHeuristic"
    unfolding rule_A_path by simp
qed


theorem half_time_rule_A_witness:
  "(\<exists>r. correct_half_time_spectral (\<lambda>low high y sr. Inl LibraryError) [] 44100
            (detect_beats_librosa_result (94999 / 1000) [0, 16 / 25, 32 / 25] (499 / 1000))
          = (LowConfidenceHeuristic, r)
        \<and> bpm r = 94999 / 500
        \<and> beats r = [0, 8 / 25, 16 / 25, 24 / 25, 32 / 25]
        \<and> downbeats r = [(0, 1), (8 / 25, 2), (16 / 25, 3), (24 / 25, 4), (32 / 25, 1)]
        \<and> bpm_confidence r \<le> 7 / 10)
   \<and> fst (correct_half_time_spectral (\<lambda>low high y sr. Inl LibraryError) [] 44100
            (detect_beats_librosa_result 95 [0, 16 / 25, 32 / 25] (1 / 2)))
        \<noteq> LowConfidenceHeuristic"
proof -
  let ?O = "\<lambda>(low::real) (high::real) (y::real list) (sr::int). (Inl LibraryError :: py_error + real list)"
  let ?a = "detect_beats_librosa_result (94999 / 1000) [0, 16 / 25, 32 / 25] (499 / 1000)"
  let ?b = "detect_beats_librosa_result 95 [0, 16 / 25, 32 / 25] (1 / 2)"
  have a: "bpm ?a < 95 \<and> bpm_confidence ?a < 1 / 2"
    and a': "beats ?a = [0, 16 / 25, 32 / 25]" "bpm ?a = 94999 / 1000" "time_signature ?a = 4"
    by (simp_all add: detect_beats_librosa_result_def)
  have b: "bpm ?b = 95 \<and> bpm_confidence ?b = 1 / 2"
    by (simp add: detect_beats_librosa_result_def)
  from half_time_rule_A [OF refl, of "94999 / 1000" "[0, 16 / 25, 32 / 25]" "499 / 1000" ?O "[]" 44100] a
  obtain r where r: "correct_half_time_spectral ?O [] 44100 ?a = (LowConfidenceHeuristic, r)"
      "bpm r = 2 * bpm ?a"
      "length (beats r) = (if beats ?a = [] then 0 else 2 * length (beats ?a) - 1)"
      "\<forall>i. i < length (beats ?a) \<longrightarrow> beats r ! (2 * i) = beats ?a ! i"
      "\<forall>i. Suc i < length (beats ?a) \<longrightarrow>
           beats r ! (2 * i + 1) = (beats ?a ! i + beats ?a ! Suc i) / 2"
      "downbeats r = map (\<lambda>i. (beats r ! i, int i mod time_signature ?a + 1))
                       [0..<length (beats r)]"
      "bpm_confidence r \<le> 7 / 10"
    by blast
  have len: "length (beats r) = 5" using r(3) by (simp add: a')
  have e: "beats r ! 0 = 0" "beats r ! 2 = 16 / 25" "beats r ! 4 = 32 / 25"
    using r(4) [rule_format, of 0] r(4) [rule_format, of 1] r(4) [rule_format, of 2]
    by (simp_all add: a')
  have o: "beats r ! 1 = 8 / 25" "beats r ! 3 = 24 / 25"
    using r(5) [rule_format, of 0] r(5) [rule_format, of 1] by (simp_all add: a')
  have bs: "beats r = [0, 8 / 25, 16 / 25, 24 / 25, 32 / 25]"
    using len e o by (intro nth_equalityI) (auto simp: nth_Cons' less_Suc_eq numeral_eq_Suc)
  have db: "downbeats r = [(0, 1), (8 / 25, 2), (16 / 25, 3), (24 / 25, 4), (32 / 25, 1)]"
    unfolding r(6) bs by (simp add: a' upt_rec [of _ "Suc (Suc (Suc (Suc (Suc 0))))"])
  have "fst (correct_half_time_spectral ?O [] 44100 ?b) \<noteq> LowConfidenceHeuristic"
    using half_time_rule_A [OF refl, of 95 "[0, 16 / 25, 32 / 25]" "1 / 2" ?O "[]" 44100] b
    by blast
  with r(1,2,7) bs db show ?thesis by (simp add: a')
qed

lemma band_edges_ordered:
  assumes "0 < sr"
  shows "min (5000 / (real_of_int sr / 2)) (9 / 10) < min (15000 / (real_of_int sr / 2)) (99 / 100)"
proof -
  have "0 < real_of_int sr" using assms by simp
  then have "5000 / (real_of_int sr / 2) < 15000 / (real_of_int sr / 2)"
    by (simp add: field_simps)
  then show ?thesis by (auto simp: min_def)
qed

text \<open>
  C2. Half-time rule B, amended. For a result with \<open>bpm < 100\<close> and
  \<open>confidence \<le> 0.7\<close> that rule A did not correct, a positive sample rate, a positive
  bpm and a hi-hat onset detection in the band 5 to 15 kHz that returns, the bpm and the
  beats are doubled as in rule A (with confidence \<open>min (1.2 * c) 0.85\<close>) precisely when
  \<open>onsets / (expected + 1) > 1.5\<close>, where \<open>expected\<close> is 8 times the number of
  bars of the waveform at the current bpm; otherwise the result is returned unchanged.
  Results with \<open>bpm \<ge> 100\<close> or \<open>confidence > 0.7\<close> are returned unchanged.
\<close>

theorem half_time_rule_B:
  "(bpm beat_result < 100 \<and> bpm_confidence beat_result \<le> 7 / 10
      \<and> \<not> (bpm beat_result < 95 \<and> bpm_confidence beat_result < 1 / 2)
      \<and> 0 < sr \<and> 0 < bpm beat_result
      \<and> hihat_onsets (min (5000 / (of_int sr / 2)) (9 / 10))
            (min (15000 / (of_int sr / 2)) (99 / 100)) y sr = Inr hihat_times
    \<longrightarrow> correct_half_time_spectral hihat_onsets y sr beat_result =
          (if of_nat (length hihat_times)
                / (of_nat (length y) / of_int sr / (60 / bpm beat_result * 4) * 8 + 1) > 3 / 2
           then (SpectralDoubling,
                 \<lparr>bpm = 2 * bpm beat_result,
                  bpm_confidence = min (bpm_confidence beat_result * (6 / 5)) (17 / 20),
                  beats = interpolate_beats (beats beat_result),
                  downbeats = rebuild_downbeats (interpolate_beats (beats beat_result)),
                  time_signature = time_signature beat_result\<rparr>)
           else (SpectralUnchanged, beat_result)))
   \<and> (bpm beat_result \<ge> 100 \<or> bpm_confidence beat_result > 7 / 10
    \<longrightarrow> correct_half_time_spectral hihat_onsets y sr beat_result
          = (NoCorrectionNeeded, beat_result))"
proof (intro conjI impI)
  assume "bpm beat_result \<ge> 100 \<or> bpm_confidence beat_result > 7 / 10"
  then show "correct_half_time_spectral hihat_onsets y sr beat_result
               = (NoCorrectionNeeded, beat_result)"
    by (auto simp: correct_half_time_spectral_def Let_def)
next
  assume h: "bpm beat_result < 100 \<and> bpm_confidence beat_result \<le> 7 / 10
      \<and> \<not> (bpm beat_result < 95 \<and> bpm_confidence beat_result < 1 / 2)
      \<and> 0 < sr \<and> 0 < bpm beat_result
      \<and> hihat_onsets (min (5000 / (of_int sr / 2)) (9 / 10))
            (min (15000 / (of_int sr / 2)) (99 / 100)) y sr = Inr hihat_times"
  let ?E = "of_nat (length y) / of_int sr / (60 / bpm beat_result * 4) * 8 :: real"
  have sr: "real_of_int sr / 2 \<noteq> 0" and b0: "bpm beat_result \<noteq> 0" using h by simp_all
  have "0 \<le> ?E" using h by simp
  then have e1: "?E + 1 \<noteq> 0" by linarith
  have ord: "\<not> min (5000 / (real_of_int sr / 2)) (9 / 10)
               \<ge> min (15000 / (real_of_int sr / 2)) (99 / 100)"
  proof -
    from h have "0 < sr" by blast
    from band_edges_ordered [OF this] show ?thesis by (simp only: not_le)
  qed
  have chk: "spectral_check hihat_onsets y sr beat_result =
          Inr (if of_nat (length hihat_times) / (?E + 1) > 3 / 2
           then (SpectralDoubling,
                 \<lparr>bpm = 2 * bpm beat_result,
                  bpm_confidence = min (bpm_confidence beat_result * (6 / 5)) (17 / 20),
                  beats = interpolate_beats (beats beat_result),
                  downbeats = rebuild_downbeats (interpolate_beats (beats beat_result)),
                  time_signature = time_signature beat_result\<rparr>)
           else (SpectralUnchanged, beat_result))"
    unfolding spectral_check_def Let_def
    using sr b0 e1 ord h by (simp only: if_False sum.case if_distrib mult.commute [of _ 2]) auto
  show "correct_half_time_spectral hihat_onsets y sr beat_result =
          (if of_nat (length hihat_times) / (?E + 1) > 3 / 2
           then (SpectralDoubling,
                 \<lparr>bpm = 2 * bpm beat_result,
                  bpm_confidence = min (bpm_confidence beat_result * (6 / 5)) (17 / 20),
                  beats = interpolate_beats (beats beat_result),
                  downbeats = rebuild_downbeats (interpolate_beats (beats beat_result)),
                  time_signature = time_signature beat_result\<rparr>)
           else (SpectralUnchanged, beat_result))"
    unfolding correct_half_time_spectral_def Let_def chk using h by auto
qed


theorem half_time_rule_B_witness:
  "correct_half_time_spectral
       (\<lambda>low high y sr. Inr [0, 1/5, 2/5, 3/5, 4/5, 1, 6/5, 7/5, 8/5, 9/5, 2, 11/5, 12/5, 61/25])
       (replicate 110250 0) 44100
       (detect_beats_librosa_result 96 [0, 5 / 8, 5 / 4, 15 / 8] (3 / 5))
     = (SpectralDoubling,
        \<lparr>bpm = 192, bpm_confidence = 18 / 25,
         beats = [0, 5 / 16, 5 / 8, 15 / 16, 5 / 4, 25 / 16, 15 / 8],
         downbeats = [(0, 1), (5 / 16, 2), (5 / 8, 3), (15 / 16, 4), (5 / 4, 1), (25 / 16, 2),
                      (15 / 8, 3)],
         time_signature = 4\<rparr>)
   \<and> correct_half_time_spectral (\<lambda>low high y sr. Inl LibraryError) [] 44100
       (detect_beats_librosa_result 120 [0, 1 / 2, 1] (3 / 5))
     = (NoCorrectionNeeded, detect_beats_librosa_result 120 [0, 1 / 2, 1] (3 / 5))"
proof -
  let ?ts = "[0, 1/5, 2/5, 3/5, 4/5, 1, 6/5, 7/5, 8/5, 9/5, 2, 11/5, 12/5, 61/25] :: real list"
  let ?O = "\<lambda>(low::real) (high::real) (y::real list) (sr::int). (Inr ?ts :: py_error + real list)"
  let ?F = "\<lambda>(low::real) (high::real) (y::real list) (sr::int). (Inl LibraryError :: py_error + real list)"
  have up: "[0..<7] = [0, 1, 2, 3, 4, 5, 6]" by (simp add: upt_rec)
  have A: "correct_half_time_spectral ?O (replicate 110250 0) 44100
       (detect_beats_librosa_result 96 [0, 5 / 8, 5 / 4, 15 / 8] (3 / 5))
     = (SpectralDoubling,
        \<lparr>bpm = 192, bpm_confidence = 18 / 25,
         beats = [0, 5 / 16, 5 / 8, 15 / 16, 5 / 4, 25 / 16, 15 / 8],
         downbeats = [(0, 1), (5 / 16, 2), (5 / 8, 3), (15 / 16, 4), (5 / 4, 1), (25 / 16, 2),
                      (15 / 8, 3)],
         time_signature = 4\<rparr>)"
    using half_time_rule_B [of "detect_beats_librosa_result 96 [0, 5 / 8, 5 / 4, 15 / 8] (3 / 5)"
        44100 ?O "replicate 110250 0" ?ts]
    by (simp add: detect_beats_librosa_result_def rebuild_downbeats_def up)
  have B: "correct_half_time_spectral ?F [] 44100
       (detect_beats_librosa_result 120 [0, 1 / 2, 1] (3 / 5))
     = (NoCorrectionNeeded, detect_beats_librosa_result 120 [0, 1 / 2, 1] (3 / 5))"
    using half_time_rule_B [of "detect_beats_librosa_result 120 [0, 1 / 2, 1] (3 / 5)"
        44100 ?F "[]" "[]"]
    by (simp add: detect_beats_librosa_result_def)
  from A B show ?thesis by (rule conjI)
qed

text \<open>
  The threshold is not 1.5 times the expected count: one bar (2.5 s at 96 bpm, 110250 samples at 44.1 kHz) with 13 onsets
  has more than 1.5 times the expected 8 onsets, but \<open>13 / (8 + 1)\<close> is below 1.5 and
  the result is returned unchanged.
\<close>

theorem half_time_rule_B_counterexample:
  "correct_half_time_spectral
       (\<lambda>low high y sr. Inr [0, 1/5, 2/5, 3/5, 4/5, 1, 6/5, 7/5, 8/5, 9/5, 2, 11/5, 12/5])
       (replicate 110250 0) 44100
       (detect_beats_librosa_result 96 [0, 5 / 8, 5 / 4, 15 / 8] (3 / 5))
     = (SpectralUnchanged, detect_beats_librosa_result 96 [0, 5 / 8, 5 / 4, 15 / 8] (3 / 5))
   \<and> real (length [0, 1/5, 2/5, 3/5, 4/5, 1, 6/5, 7/5, 8/5, 9/5, 2, 11/5, 12/5 :: real])
       > 3 / 2 * (8 * (real (length (replicate 110250 (0::real))) / 44100 / (60 / 96 * 4)))"
  by (simp add: correct_half_time_spectral_def spectral_check_def Let_def
        detect_beats_librosa_result_def)

section \<open>Properties of the filter bank\<close>

lemma band_edges_empty:
  fixes fs :: real
  assumes "0 < fs" and "highcut \<le> lowcut"
  shows "min (highcut / (fs / 2)) (99 / 100) \<le> max (lowcut / (fs / 2)) (1 / 100)"
proof -
  have "highcut / (fs / 2) \<le> lowcut / (fs / 2)"
    using assms by (intro divide_right_mono) simp_all
  then show ?thesis by (simp add: min_def max_def)
qed

lemma bandpass_filter_edges:
  fixes fs :: real
  assumes "0 < fs"
  shows "bandpass_filter F data lowcut highcut fs order =
           (if min (highcut / (fs / 2)) (99 / 100) \<le> max (lowcut / (fs / 2)) (1 / 100)
            then Inr data
            else case F order (max (lowcut / (fs / 2)) (1 / 100))
                        (min (highcut / (fs / 2)) (99 / 100)) data of
                   Inr filtered \<Rightarrow> Inr filtered | Inl e \<Rightarrow> Inr data)"
proof -
  have nyq: "1 / 2 * fs = fs / 2" "fs / 2 \<noteq> 0" using assms by simp_all
  show ?thesis unfolding bandpass_filter_def Let_def nyq by (simp only: nyq if_False)
qed

lemma bandpass_filter_safe_edges:
  fixes fs :: real
  assumes "0 < fs"
  shows "bandpass_filter_safe F isfinite_all data lowcut highcut fs order =
           (if min (highcut / (fs / 2)) (99 / 100) \<le> max (lowcut / (fs / 2)) (1 / 100)
            then Inr data
            else case F order (max (lowcut / (fs / 2)) (1 / 100))
                        (min (highcut / (fs / 2)) (99 / 100)) data of
                   Inr filtered \<Rightarrow> if \<not> isfinite_all filtered then Inr data else Inr filtered
                 | Inl e \<Rightarrow> Inr data)"
proof -
  have nyq: "1 / 2 * fs = fs / 2" "fs / 2 \<noteq> 0" using assms by simp_all
  show ?thesis unfolding bandpass_filter_safe_def Let_def nyq by (simp only: nyq if_False)
qed

text \<open>
  C8. For a positive sample rate and \<open>lowcut \<ge> highcut\<close> both band-pass
  constructors return the input signal unchanged. The cutoffs are normalised to the
  Nyquist frequency \<open>fs / 2\<close> and clamped, \<open>low = max (lowcut / nyq) 0.01\<close> and
  \<open>high = min (highcut / nyq) 0.99\<close>: the filter design is consulted only at these
  edges and only when \<open>0.01 \<le> low < high \<le> 0.99\<close> (replacing it elsewhere by a failing
  one changes nothing). When the design or the filtering raises, the input is returned
  unchanged as well.
\<close>

theorem bandpass_filter_identity:
  fixes fs :: real
  shows "(0 < fs \<and> lowcut \<ge> highcut \<longrightarrow>
            bandpass_filter butter_sosfilt data lowcut highcut fs order = Inr data
          \<and> bandpass_filter_safe butter_sosfilt isfinite_all data lowcut highcut fs order
              = Inr data)
       \<and> (0 < fs \<longrightarrow>
            bandpass_filter butter_sosfilt data lowcut highcut fs order
              = bandpass_filter
                  (\<lambda>ord low high d.
                     if low = max (lowcut / (fs / 2)) (1 / 100)
                        \<and> high = min (highcut / (fs / 2)) (99 / 100)
                        \<and> 1 / 100 \<le> low \<and> low < high \<and> high \<le> 99 / 100
                     then butter_sosfilt ord low high d else Inl LibraryError)
                  data lowcut highcut fs order
          \<and> bandpass_filter_safe butter_sosfilt isfinite_all data lowcut highcut fs order
              = bandpass_filter_safe
                  (\<lambda>ord low high d.
                     if low = max (lowcut / (fs / 2)) (1 / 100)
                        \<and> high = min (highcut / (fs / 2)) (99 / 100)
                        \<and> 1 / 100 \<le> low \<and> low < high \<and> high \<le> 99 / 100
                     then butter_sosfilt ord low high d else Inl LibraryError)
                  isfinite_all data lowcut highcut fs order)
       \<and> (0 < fs \<and> (\<forall>low high. \<exists>e. butter_sosfilt order low high data = Inl e) \<longrightarrow>
            bandpass_filter butter_sosfilt data lowcut highcut fs order = Inr data
          \<and> bandpass_filter_safe butter_sosfilt isfinite_all data lowcut highcut fs order
              = Inr data)"
proof -
  define L where "L = max (lowcut / (fs / 2)) (1 / 100)"
  define H where "H = min (highcut / (fs / 2)) (99 / 100)"
  let ?G = "\<lambda>ord low high d.
              if low = L \<and> high = H \<and> 1 / 100 \<le> low \<and> low < high \<and> high \<le> 99 / 100
              then butter_sosfilt ord low high d else Inl LibraryError"
  have bounds: "1 / 100 \<le> L" "H \<le> 99 / 100"
    unfolding L_def H_def by (rule max.cobounded2, rule min.cobounded2)
  have e1: "bandpass_filter F data lowcut highcut fs order =
           (if H \<le> L then Inr data
            else case F order L H data of
                   Inr filtered \<Rightarrow> Inr filtered | Inl e \<Rightarrow> Inr data)" if "0 < fs" for F
    unfolding L_def H_def by (rule bandpass_filter_edges [OF that])
  have e2: "bandpass_filter_safe F isfinite_all data lowcut highcut fs order =
           (if H \<le> L then Inr data
            else case F order L H data of
                   Inr filtered \<Rightarrow> if \<not> isfinite_all filtered then Inr data else Inr filtered
                 | Inl e \<Rightarrow> Inr data)" if "0 < fs" for F
    unfolding L_def H_def by (rule bandpass_filter_safe_edges [OF that])
  have A: "bandpass_filter butter_sosfilt data lowcut highcut fs order = Inr data
          \<and> bandpass_filter_safe butter_sosfilt isfinite_all data lowcut highcut fs order
              = Inr data" if "0 < fs \<and> lowcut \<ge> highcut"
  proof -
    from that have "H \<le> L" unfolding L_def H_def by (intro band_edges_empty) simp_all
    moreover from that have "0 < fs" by simp
    ultimately show ?thesis
      by (simp add: e1 e2)
  qed
  have B: "bandpass_filter butter_sosfilt data lowcut highcut fs order
              = bandpass_filter ?G data lowcut highcut fs order
          \<and> bandpass_filter_safe butter_sosfilt isfinite_all data lowcut highcut fs order
              = bandpass_filter_safe ?G isfinite_all data lowcut highcut fs order" if "0 < fs"
  proof -
    note e = e1 [OF that] e2 [OF that]
    show ?thesis
    proof (cases "H \<le> L")
      case True
      then show ?thesis by (simp add: e)
    next
      case False
      then have "L < H" by simp
      with bounds show ?thesis by (simp add: e)
    qed
  qed
  have C: "bandpass_filter butter_sosfilt data lowcut highcut fs order = Inr data
          \<and> bandpass_filter_safe butter_sosfilt isfinite_all data lowcut highcut fs order
              = Inr data"
    if "0 < fs \<and> (\<forall>low high. \<exists>e. butter_sosfilt order low high data = Inl e)"
  proof -
    from that obtain e where "butter_sosfilt order L H data = Inl e" by blast
    moreover from that have "0 < fs" by simp
    ultimately show ?thesis
      by (simp add: e1 e2)
  qed
  from A B C show ?thesis unfolding L_def H_def by blast
qed

theorem bandpass_filter_identity_witness:
  "bandpass_filter (\<lambda>ord low high d. Inr (map (\<lambda>x. x / 2) d)) [1, - 1, 1 / 2 :: real] 300 20 44100 4
     = Inr [1, - 1, 1 / 2]
   \<and> bandpass_filter_safe (\<lambda>ord low high d. Inr (map (\<lambda>x. x / 2) d)) (\<lambda>d. True)
        [1, - 1, 1 / 2 :: real] 5000 5000 44100 4 = Inr [1, - 1, 1 / 2]
   \<and> bandpass_filter (\<lambda>ord low high d. Inl LibraryError) [1, - 1, 1 / 2 :: real] 20 300 44100 4
     = Inr [1, - 1, 1 / 2]"
proof -
  let ?F = "\<lambda>(ord::int) (low::real) (high::real) (d::real list). (Inr (map (\<lambda>x. x / 2) d) :: py_error + real list)"
  let ?G = "\<lambda>(ord::int) (low::real) (high::real) (d::real list). (Inl LibraryError :: py_error + real list)"
  have 1: "bandpass_filter ?F [1, - 1, 1 / 2] 300 20 44100 4 = Inr [1, - 1, 1 / 2]"
    using bandpass_filter_identity [of 44100 20 300 ?F "[1, - 1, 1 / 2]" 4 "\<lambda>d. True"] by simp
  have 2: "bandpass_filter_safe ?F (\<lambda>d. True) [1, - 1, 1 / 2] 5000 5000 44100 4
             = Inr [1, - 1, 1 / 2]"
    using bandpass_filter_identity [of 44100 5000 5000 ?F "[1, - 1, 1 / 2]" 4 "\<lambda>d. True"] by simp
  have 3: "bandpass_filter ?G [1, - 1, 1 / 2] 20 300 44100 4 = Inr [1, - 1, 1 / 2]"
    using bandpass_filter_identity [of 44100 300 20 ?G "[1, - 1, 1 / 2]" 4 "\<lambda>d. True"] by simp
  from 1 2 3 show ?thesis by simp
qed

section \<open>Properties of the pattern filter and the standard analysis\<close>

lemma filter_hits_loop_filter:
  "filter_hits_loop beat_duration bar_duration tolerance_sec downbeat_time genre hs
       (filtered, stats) = Inr (filtered', stats')
   \<Longrightarrow> filtered' = filtered @ filter (\<lambda>hit.
          \<not> time hit - downbeat_time < 0
          \<and> (\<exists>expected_pos \<in> set (expected_positions_for (type hit) genre).
                \<bar>py_fmod (time hit - downbeat_time) bar_duration / beat_duration - expected_pos\<bar>
                  * beat_duration \<le> tolerance_sec)) hs"
proof (induction hs arbitrary: filtered stats)
  case Nil
  then show ?case by simp
next
  case (Cons hit hs)
  show ?case
  proof (cases "time hit - downbeat_time < 0")
    case True
    with Cons.prems have
      "filter_hits_loop beat_duration bar_duration tolerance_sec downbeat_time genre hs
         (filtered, stats_removed (type hit) stats) = Inr (filtered', stats')"
      by (simp add: Let_def split: if_splits)
    from Cons.IH [OF this] True show ?thesis by simp
  next
    case False
    note neg = this
    show ?thesis
    proof (cases "\<exists>expected_pos \<in> set (expected_positions_for (type hit) genre).
                \<bar>py_fmod (time hit - downbeat_time) bar_duration / beat_duration - expected_pos\<bar>
                  * beat_duration \<le> tolerance_sec")
      case True
      with Cons.prems neg have
        "filter_hits_loop beat_duration bar_duration tolerance_sec downbeat_time genre hs
           (filtered @ [hit], stats_kept (type hit) stats) = Inr (filtered', stats')"
        by (simp add: Let_def split: if_splits)
      from Cons.IH [OF this] True neg show ?thesis by simp
    next
      case False
      with Cons.prems neg have
        "filter_hits_loop beat_duration bar_duration tolerance_sec downbeat_time genre hs
           (filtered, stats_removed (type hit) stats) = Inr (filtered', stats')"
        by (simp add: Let_def split: if_splits)
      from Cons.IH [OF this] False neg show ?thesis by simp
    qed
  qed
qed

lemma filter_hits_by_pattern_filter:
  fixes bpm :: real and time_signature :: int
  assumes "filter_hits_by_pattern hs bpm downbeat_time time_signature genre tolerance_ms
             = Inr filtered"
  shows "\<exists>P. filtered = filter P hs"
proof (cases "hs = []")
  case True
  with assms show ?thesis by (simp add: filter_hits_by_pattern_def)
next
  case False
  with assms obtain stats stats' where
    "filter_hits_loop (60 / bpm) (60 / bpm * of_int time_signature) (tolerance_ms / 1000)
       downbeat_time genre hs ([], stats) = Inr (filtered, stats')"
    by (auto simp: filter_hits_by_pattern_def Let_def split: if_splits sum.splits)
  from filter_hits_loop_filter [OF this] show ?thesis by auto
qed

lemma analyze_rhythm_result:
  assumes run: "analyze_rhythm energy drums_path beat_result detected_genre apply_pattern_filter
             pattern_tolerance_ms = Inr result"
  shows "\<exists>beat_aligned_hits P.
           detect_drums_beat_aligned energy (beats beat_result) (time_signature beat_result)
             = Inr beat_aligned_hits
           \<and> hits result
               = filter P (sort_key time (hits_of_beat_aligned drums_path beat_aligned_hits))
           \<and> hits_before_filter result
               = length (hits_of_beat_aligned drums_path beat_aligned_hits)
           \<and> hits_after_filter result = length (hits result)"
proof -
  from run obtain bah where bah: "detect_drums_beat_aligned energy (beats beat_result)
                        (time_signature beat_result) = Inr bah"
    by (auto simp: analyze_rhythm_def split: sum.splits)
  let ?hits0 = "sort_key time (hits_of_beat_aligned drums_path bah)"
  have "\<exists>P. hits result = filter P ?hits0
          \<and> hits_before_filter result = length ?hits0
          \<and> hits_after_filter result = length (hits result)"
  proof (cases "apply_pattern_filter \<and> downbeats beat_result \<noteq> []")
    case True
    with run bah obtain filtered where
      f: "filter_hits_by_pattern ?hits0 (bpm beat_result) (fst (hd (downbeats beat_result)))
            (time_signature beat_result) detected_genre pattern_tolerance_ms = Inr filtered"
      and r: "result = \<lparr>hits = filtered, pattern_filter_applied = True,
                         hits_before_filter = length ?hits0,
                         hits_after_filter = length filtered\<rparr>"
      by (auto simp: analyze_rhythm_def Let_def split: sum.splits)
    from filter_hits_by_pattern_filter [OF f] r show ?thesis by auto
  next
    case False
    with run bah have "result = \<lparr>hits = ?hits0, pattern_filter_applied = False,
                         hits_before_filter = length ?hits0,
                         hits_after_filter = length ?hits0\<rparr>"
      by (auto simp: analyze_rhythm_def Let_def split: sum.splits)
    then have "hits result = filter (\<lambda>h. True) ?hits0
          \<and> hits_before_filter result = length ?hits0
          \<and> hits_after_filter result = length (hits result)" by simp
    then show ?thesis by blast
  qed
  with bah show ?thesis by auto
qed

text \<open>
  C9. The pattern filter only removes hits: what \<^verbatim>\<open>filter_hits_by_pattern\<close> returns
  is the input list with some hits left out, so every returned hit is one of the input
  hits and there are no more of them. In a standard analysis run the counter
  \<open>hits_after_filter\<close> is at most \<open>hits_before_filter\<close>, the counters are the lengths
  of the hit lists after and before the filter stage, and every hit of the output is one
  of the hits detected before the filter.
\<close>

theorem pattern_filter_only_removes:
  fixes tempo :: real and beats_per_bar :: int
  shows "(filter_hits_by_pattern hs tempo downbeat_time beats_per_bar genre tolerance_ms
            = Inr filtered
          \<longrightarrow> (\<exists>P. filtered = filter P hs) \<and> set filtered \<subseteq> set hs
              \<and> length filtered \<le> length hs)
       \<and> (analyze_rhythm energy drums_path beat_result detected_genre apply_pattern_filter
             pattern_tolerance_ms = Inr result
          \<longrightarrow> hits_after_filter result \<le> hits_before_filter result
              \<and> hits_after_filter result = length (hits result)
              \<and> (\<exists>beat_aligned_hits.
                    detect_drums_beat_aligned energy (beats beat_result)
                        (time_signature beat_result) = Inr beat_aligned_hits
                    \<and> hits_before_filter result
                        = length (hits_of_beat_aligned drums_path beat_aligned_hits)
                    \<and> set (hits result)
                        \<subseteq> set (hits_of_beat_aligned drums_path beat_aligned_hits)))"
proof (intro conjI impI)
  assume "filter_hits_by_pattern hs tempo downbeat_time beats_per_bar genre tolerance_ms
            = Inr filtered"
  from filter_hits_by_pattern_filter [OF this] obtain P where P: "filtered = filter P hs" ..
  then show "\<exists>P. filtered = filter P hs" by blast
  from P show "set filtered \<subseteq> set hs" by auto
  from P show "length filtered \<le> length hs" by simp
next
  assume run: "analyze_rhythm energy drums_path beat_result detected_genre apply_pattern_filter
             pattern_tolerance_ms = Inr result"
  from analyze_rhythm_result [OF run] obtain bah P where
    bah: "detect_drums_beat_aligned energy (beats beat_result) (time_signature beat_result)
            = Inr bah"
    and P: "hits result = filter P (sort_key time (hits_of_beat_aligned drums_path bah))"
      "hits_before_filter result = length (hits_of_beat_aligned drums_path bah)"
      "hits_after_filter result = length (hits result)"
    by blast
  show "hits_after_filter result \<le> hits_before_filter result"
    unfolding P
    using length_filter_le [of P "sort_key time (hits_of_beat_aligned drums_path bah)"]
    by simp
  show "hits_after_filter result = length (hits result)" by (rule P(3))
  show "\<exists>beat_aligned_hits.
          detect_drums_beat_aligned energy (beats beat_result)
              (time_signature beat_result) = Inr beat_aligned_hits
          \<and> hits_before_filter result
              = length (hits_of_beat_aligned drums_path beat_aligned_hits)
          \<and> set (hits result) \<subseteq> set (hits_of_beat_aligned drums_path beat_aligned_hits)"
    using bah P by (intro exI [of _ bah]) auto
qed

theorem pattern_filter_only_removes_witness:
  "analyze_rhythm (\<lambda>b t. if t = 0 \<or> (b = Low \<and> t = 1 / 2) then 1 else 0) False
       (detect_beats_librosa_result 120 [0, 1 / 2] (3 / 5)) None True 100
     = Inr \<lparr>hits = [\<lparr>time = 0, type = ''kick'', confidence = 7 / 10, features = None\<rparr>,
                    \<lparr>time = 0, type = ''hihat'', confidence = 7 / 10, features = None\<rparr>],
            pattern_filter_applied = True, hits_before_filter = 3, hits_after_filter = 2\<rparr>
   \<and> filter_hits_by_pattern
       [\<lparr>time = 0, type = ''kick'', confidence = 7 / 10, features = None\<rparr>,
        \<lparr>time = 1 / 2, type = ''kick'', confidence = 7 / 10, features = None\<rparr>]
       120 0 4 (Some ''trap'') 100
     = Inr [\<lparr>time = 0, type = ''kick'', confidence = 7 / 10, features = None\<rparr>]
   \<and> hits_after_filter
        \<lparr>hits = [\<lparr>time = 0, type = ''kick'', confidence = 7 / 10, features = None\<rparr>,
                 \<lparr>time = 0, type = ''hihat'', confidence = 7 / 10, features = None\<rparr>],
         pattern_filter_applied = True, hits_before_filter = 3, hits_after_filter = 2\<rparr>
       \<le> hits_before_filter
        \<lparr>hits = [\<lparr>time = 0, type = ''kick'', confidence = 7 / 10, features = None\<rparr>,
                 \<lparr>time = 0, type = ''hihat'', confidence = 7 / 10, features = None\<rparr>],
         pattern_filter_applied = True, hits_before_filter = 3, hits_after_filter = 2\<rparr>
   \<and> length [\<lparr>time = 0, type = ''kick'', confidence = 7 / 10, features = None\<rparr>]
       \<le> length [\<lparr>time = 0, type = ''kick'', confidence = 7 / 10, features = None\<rparr>,
                 \<lparr>time = 1 / 2, type = ''kick'', confidence = 7 / 10, features = None\<rparr>]"
proof -
  let ?k0 = "\<lparr>time = 0, type = ''kick'', confidence = 7 / 10, features = None\<rparr>"
  let ?k1 = "\<lparr>time = 1 / 2, type = ''kick'', confidence = 7 / 10, features = None\<rparr>"
  let ?h0 = "\<lparr>time = 0, type = ''hihat'', confidence = 7 / 10, features = None\<rparr>"
  let ?R = "\<lparr>hits = [?k0, ?h0], pattern_filter_applied = True, hits_before_filter = 3,
             hits_after_filter = 2\<rparr>"
  have run: "analyze_rhythm (\<lambda>b t. if t = 0 \<or> (b = Low \<and> t = 1 / 2) then 1 else 0) False
       (detect_beats_librosa_result 120 [0, 1 / 2] (3 / 5)) None True 100 = Inr ?R"
    by code_simp
  have flt: "filter_hits_by_pattern [?k0, ?k1] 120 0 4 (Some ''trap'') 100 = Inr [?k0]"
    by code_simp
  note inst = pattern_filter_only_removes
    [of "[?k0, ?k1]" 120 0 4 "Some ''trap''" 100 "[?k0]"
        "\<lambda>b t. if t = 0 \<or> (b = Low \<and> t = 1 / 2) then 1 else 0" False
        "detect_beats_librosa_result 120 [0, 1 / 2] (3 / 5)" None True 100 ?R]
  from inst run have a: "hits_after_filter ?R \<le> hits_before_filter ?R" by blast
  from inst flt have b: "length [?k0] \<le> length [?k0, ?k1]" by blast
  from run flt a b show ?thesis by blast
qed

section \<open>Order of the hits of an analysis\<close>

lemma sorted_wrt_ties:
  fixes key :: "'a \<Rightarrow> real"
  assumes "sorted (map key ys)"
    and "\<And>t. sorted_wrt S (filter (\<lambda>h. key h = t) ys)"
  shows "sorted_wrt (\<lambda>a b. key a < key b \<or> (key a = key b \<and> S a b)) ys"
  using assms
proof (induction ys)
  case Nil
  then show ?case by simp
next
  case (Cons y ys)
  have tail: "sorted_wrt S (filter (\<lambda>h. key h = t) ys)" for t
    using Cons.prems(2) [of t] by (cases "key y = t") simp_all
  have "key y < key z \<or> (key y = key z \<and> S y z)" if "z \<in> set ys" for z
  proof (cases "key y = key z")
    case True
    with Cons.prems(2) [of "key y"] that show ?thesis by auto
  next
    case False
    with Cons.prems(1) that show ?thesis by force
  qed
  moreover have "sorted_wrt (\<lambda>a b. key a < key b \<or> (key a = key b \<and> S a b)) ys"
    using Cons.prems(1) tail by (intro Cons.IH) simp_all
  ultimately show ?case by simp
qed

lemma filter_eq_distinct:
  "distinct xs \<Longrightarrow> filter (\<lambda>x. x = t) xs = (if t \<in> set xs then [t] else [])"
  by (induction xs) auto

lemma detect_drums_beat_aligned_shape:
  assumes "detect_drums_beat_aligned energy bs ts = Inr beat_aligned_hits"
  shows "\<exists>k s h c. beat_aligned_hits =
           [(''kick'', k), (''snare'', s), (''hihat'', h), (''clap'', c), (''tom'', []),
            (''perc'', [])]
         \<and> distinct k \<and> distinct s \<and> distinct h \<and> distinct c"
proof -
  have "\<exists>k s h c. beat_aligned_hits =
          map (\<lambda>(drum_type, times). (drum_type, sort (remdups times)))
            [(''kick'', k), (''snare'', s), (''hihat'', h), (''clap'', c), (''tom'', []),
             (''perc'', [])]"
  proof (cases "bs \<noteq> [] \<and> ts = 0")
    case True
    with assms show ?thesis
      unfolding detect_drums_beat_aligned_def Let_def by (simp only: if_True sum.distinct simp_thms)
  next
    case False
    with assms show ?thesis
      unfolding detect_drums_beat_aligned_def Let_def
      apply (simp only: if_False sum.inject simp_thms)
      apply (intro exI)
      apply (erule sym)
      done
  qed
  then obtain k s h c where "beat_aligned_hits =
          map (\<lambda>(drum_type, times). (drum_type, sort (remdups times)))
            [(''kick'', k), (''snare'', s), (''hihat'', h), (''clap'', c), (''tom'', []),
             (''perc'', [])]" by blast
  then have "beat_aligned_hits =
           [(''kick'', sort (remdups k)), (''snare'', sort (remdups s)),
            (''hihat'', sort (remdups h)), (''clap'', sort (remdups c)), (''tom'', []),
            (''perc'', [])]" by simp
  moreover have "distinct (sort (remdups k))" "distinct (sort (remdups s))"
    "distinct (sort (remdups h))" "distinct (sort (remdups c))" by simp_all
  ultimately show ?thesis by blast
qed

lemma hits_of_beat_aligned_ties:
  assumes "detect_drums_beat_aligned energy bs ts = Inr beat_aligned_hits"
  shows "sorted_wrt (\<lambda>a b. drum_order (type a) < drum_order (type b))
           (filter (\<lambda>h. time h = t) (hits_of_beat_aligned drums_path beat_aligned_hits))"
proof -
  from detect_drums_beat_aligned_shape [OF assms] obtain k s h c where
    shape: "beat_aligned_hits =
           [(''kick'', k), (''snare'', s), (''hihat'', h), (''clap'', c), (''tom'', []),
            (''perc'', [])]"
    and d: "distinct k" "distinct s" "distinct h" "distinct c"
    by blast
  show ?thesis
    unfolding shape hits_of_beat_aligned_def
    by (simp add: filter_map comp_def filter_eq_distinct d sorted_wrt_append drum_order_def)
qed

text \<open>
  C3, amended. In every analysis output the hits are ordered by time, not strictly: the
  times never decrease, and two hits with the same timestamp have different drum types
  and stand in the order in which the detector lists the drum types (kick, snare, hihat,
  clap, tom, perc), which the stable sort by time keeps.
\<close>

theorem analysis_hits_ordered:
  "analyze_rhythm energy drums_path beat_result detected_genre apply_pattern_filter
       pattern_tolerance_ms = Inr result
   \<longrightarrow> sorted_wrt (\<lambda>a b. time a < time b
                        \<or> (time a = time b \<and> drum_order (type a) < drum_order (type b)))
         (hits result)"
proof
  assume run: "analyze_rhythm energy drums_path beat_result detected_genre apply_pattern_filter
       pattern_tolerance_ms = Inr result"
  from analyze_rhythm_result [OF run] obtain bah P where
    bah: "detect_drums_beat_aligned energy (beats beat_result) (time_signature beat_result)
            = Inr bah"
    and P: "hits result = filter P (sort_key time (hits_of_beat_aligned drums_path bah))"
    by blast
  let ?xs = "hits_of_beat_aligned drums_path bah"
  have "sorted_wrt (\<lambda>a b. time a < time b
                        \<or> (time a = time b \<and> drum_order (type a) < drum_order (type b)))
          (sort_key time ?xs)"
  proof (rule sorted_wrt_ties)
    show "sorted (map time (sort_key time ?xs))" by simp
    show "sorted_wrt (\<lambda>a b. drum_order (type a) < drum_order (type b))
            (filter (\<lambda>h. time h = t) (sort_key time ?xs))" for t
      unfolding sort_key_stable by (rule hits_of_beat_aligned_ties [OF bah])
  qed
  then show "sorted_wrt (\<lambda>a b. time a < time b
                        \<or> (time a = time b \<and> drum_order (type a) < drum_order (type b)))
         (hits result)"
    unfolding P by (rule sorted_wrt_filter)
qed

theorem analysis_hits_ordered_witness:
  "analyze_rhythm (\<lambda>b t. if t = 0 \<or> t = 1 / 2 then 2 else 0) True
       (detect_beats_librosa_result 120 [0, 1 / 2, 1] (3 / 5)) None False 100
     = Inr \<lparr>hits = [\<lparr>time = 0, type = ''kick'', confidence = 9 / 10, features = None\<rparr>,
                    \<lparr>time = 0, type = ''hihat'', confidence = 9 / 10, features = None\<rparr>,
                    \<lparr>time = 1 / 2, type = ''kick'', confidence = 9 / 10, features = None\<rparr>,
                    \<lparr>time = 1 / 2, type = ''hihat'', confidence = 9 / 10, features = None\<rparr>],
            pattern_filter_applied = False, hits_before_filter = 4, hits_after_filter = 4\<rparr>
   \<and> sorted_wrt (\<lambda>a b. time a < time b
                        \<or> (time a = time b \<and> drum_order (type a) < drum_order (type b)))
        [\<lparr>time = 0, type = ''kick'', confidence = 9 / 10, features = None\<rparr>,
         \<lparr>time = 0, type = ''hihat'', confidence = 9 / 10, features = None\<rparr>,
         \<lparr>time = 1 / 2, type = ''kick'', confidence = 9 / 10, features = None\<rparr>,
         \<lparr>time = 1 / 2, type = ''hihat'', confidence = 9 / 10, features = None\<rparr>]"
proof -
  have run: "analyze_rhythm (\<lambda>b t. if t = 0 \<or> t = 1 / 2 then 2 else 0) True
       (detect_beats_librosa_result 120 [0, 1 / 2, 1] (3 / 5)) None False 100
     = Inr \<lparr>hits = [\<lparr>time = 0, type = ''kick'', confidence = 9 / 10, features = None\<rparr>,
                    \<lparr>time = 0, type = ''hihat'', confidence = 9 / 10, features = None\<rparr>,
                    \<lparr>time = 1 / 2, type = ''kick'', confidence = 9 / 10, features = None\<rparr>,
                    \<lparr>time = 1 / 2, type = ''hihat'', confidence = 9 / 10, features = None\<rparr>],
            pattern_filter_applied = False, hits_before_filter = 4, hits_after_filter = 4\<rparr>"
    by code_simp
  from analysis_hits_ordered [rule_format, OF run] run show ?thesis by simp
qed

text \<open>
  The order is neither strict nor lexicographic on a track whose first beat carries a kick and a hi-hat: both hits
  have time 0, so the times are not strictly increasing, and the kick comes before the
  hi-hat although \<open>''hihat''\<close> is lexicographically smaller than \<open>''kick''\<close>.
\<close>

theorem analysis_hits_not_strictly_ordered:
  "analyze_rhythm (\<lambda>b t. if t = 0 then 1 else 0) False
       (detect_beats_librosa_result 120 [0, 1 / 2] (3 / 5)) None True 100
     = Inr \<lparr>hits = [\<lparr>time = 0, type = ''kick'', confidence = 7 / 10, features = None\<rparr>,
                    \<lparr>time = 0, type = ''hihat'', confidence = 7 / 10, features = None\<rparr>],
            pattern_filter_applied = True, hits_before_filter = 2, hits_after_filter = 2\<rparr>
   \<and> \<not> sorted_wrt (\<lambda>a b. time a < time b)
        [\<lparr>time = 0, type = ''kick'', confidence = 7 / 10, features = None\<rparr>,
         \<lparr>time = 0, type = ''hihat'', confidence = 7 / 10, features = None\<rparr>]
   \<and> \<not> sorted_wrt (\<lambda>a b. time a < time b \<or> (time a = time b \<and> type a \<le> type b))
        [\<lparr>time = 0, type = ''kick'', confidence = 7 / 10, features = None\<rparr>,
         \<lparr>time = 0, type = ''hihat'', confidence = 7 / 10, features = None\<rparr>]"
proof -
  have run: "analyze_rhythm (\<lambda>b t. if t = 0 then 1 else 0) False
       (detect_beats_librosa_result 120 [0, 1 / 2] (3 / 5)) None True 100
     = Inr \<lparr>hits = [\<lparr>time = 0, type = ''kick'', confidence = 7 / 10, features = None\<rparr>,
                    \<lparr>time = 0, type = ''hihat'', confidence = 7 / 10, features = None\<rparr>],
            pattern_filter_applied = True, hits_before_filter = 2, hits_after_filter = 2\<rparr>"
    by code_simp
  then show ?thesis by simp
qed

section \<open>Properties of the swing estimator\<close>

lemma insort_scale:
  fixes c :: real
  assumes "0 < c"
  shows "insort (x * c) (map (\<lambda>p. p * c) ys) = map (\<lambda>p. p * c) (insort x ys)"
  using assms by (induction ys) auto

lemma sort_scale:
  fixes c :: real
  assumes "0 < c"
  shows "sort (map (\<lambda>p. p * c) xs) = map (\<lambda>p. p * c) (sort xs)"
  using assms by (induction xs) (simp_all add: insort_scale)

lemma np_median_scale:
  fixes c :: real
  assumes "0 < c"
  shows "np_median (map (\<lambda>p. p * c) xs) = c * np_median xs"
proof (cases "xs = []")
  case True
  then show ?thesis by (simp add: np_median_def)
next
  case False
  then have n: "0 < length xs" by simp
  then have i: "length xs div 2 < length (sort xs)" "length xs div 2 - 1 < length (sort xs)"
    by (simp_all add: less_imp_diff_less)
  show ?thesis
    using False i unfolding np_median_def Let_def sort_scale [OF assms]
    by (simp add: algebra_simps)
qed

lemma offbeat_ratios_of_beat_fractions:
  "offbeat_ratios_of_beat d hit_times a b =
     map (\<lambda>p. p * 100)
       (filter (\<lambda>p. d \<noteq> 0 \<and> 35 / 100 < p \<and> p < 75 / 100)
          (map (\<lambda>t. (t - a) / d) (filter (\<lambda>t. a \<le> t \<and> t < b) hit_times)))"
  by (simp add: offbeat_ratios_of_beat_def Let_def filter_map comp_def)

lemma collect_offbeat_ratios_fractions:
  "collect_offbeat_ratios d hit_times bs =
     map (\<lambda>p. p * 100)
       (concat (map (\<lambda>(beat_start, beat_end).
               filter (\<lambda>p. d \<noteq> 0 \<and> 35 / 100 < p \<and> p < 75 / 100)
                 (map (\<lambda>t. (t - beat_start) / d)
                    (filter (\<lambda>t. beat_start \<le> t \<and> t < beat_end) hit_times)))
              (zip bs (tl bs))))"
  by (induction d hit_times bs rule: collect_offbeat_ratios.induct)
     (simp_all add: offbeat_ratios_of_beat_fractions)

text \<open>
  C7, amended. With fewer than four hits the estimator returns 50. Otherwise it collects,
  over each interval between consecutive beats, the offset of each hit of the interval
  from the interval's start, measured in median beat intervals, where that lies strictly
  between 0.35 and 0.75; it returns the median of these fractions as a percentage clamped
  to [40, 75], and 50 when there are fewer than two of them. The result always lies in
  [40, 75].
\<close>

theorem detect_swing_offbeat_median:
  fixes hits :: "DrumHit list" and beats :: "real list" and time_signature :: int
  shows "detect_swing hits beats time_signature =
           (if length hits < 4 then 50
            else swing_by_offbeat_median (\<lambda>beat_start beat_end. np_median (np_diff beats))
                   hits beats)
         \<and> 40 \<le> detect_swing hits beats time_signature
         \<and> detect_swing hits beats time_signature \<le> 75"
proof (intro conjI)
  show "detect_swing hits beats time_signature =
           (if length hits < 4 then 50
            else swing_by_offbeat_median (\<lambda>beat_start beat_end. np_median (np_diff beats))
                   hits beats)"
  proof (cases "length beats < 2")
    case True
    then consider "beats = []" | a where "beats = [a]"
      by (cases beats; cases "tl beats") auto
    then show ?thesis
      by cases (simp_all add: detect_swing_def swing_by_offbeat_median_def)
  next
    case False
    then show ?thesis
      unfolding detect_swing_def swing_by_offbeat_median_def Let_def
        collect_offbeat_ratios_fractions
      by (simp add: np_median_scale)
  qed
  show "40 \<le> detect_swing hits beats time_signature"
    by (simp add: detect_swing_def Let_def)
  show "detect_swing hits beats time_signature \<le> 75"
    by (simp add: detect_swing_def Let_def)
qed

theorem detect_swing_offbeat_median_witness:
  "detect_swing
      [\<lparr>time = 0, type = ''kick'', confidence = 7 / 10, features = None\<rparr>,
       \<lparr>time = 3 / 10, type = ''hihat'', confidence = 7 / 10, features = None\<rparr>,
       \<lparr>time = 1 / 2, type = ''kick'', confidence = 7 / 10, features = None\<rparr>,
       \<lparr>time = 4 / 5, type = ''hihat'', confidence = 7 / 10, features = None\<rparr>]
      [0, 1 / 2, 1] 4 = 60"
proof -
  let ?hs = "[\<lparr>time = 0, type = ''kick'', confidence = 7 / 10, features = None\<rparr>,
       \<lparr>time = 3 / 10, type = ''hihat'', confidence = 7 / 10, features = None\<rparr>,
       \<lparr>time = 1 / 2, type = ''kick'', confidence = 7 / 10, features = None\<rparr>,
       \<lparr>time = 4 / 5, type = ''hihat'', confidence = 7 / 10, features = None\<rparr>]"
  have "swing_by_offbeat_median (\<lambda>beat_start beat_end. np_median (np_diff [0, 1 / 2, 1]))
          ?hs [0, 1 / 2, 1] = 60"
    by code_simp
  with detect_swing_offbeat_median [of ?hs "[0, 1 / 2, 1]" 4] show ?thesis by simp
qed

text \<open>
  The plain median of the offbeat fractions is not what is returned. Two hits at 0.6 of their beat give a median of 60 percent,
  but the estimator returns 50 for any list of fewer than four hits. And on the uneven
  beats 0, 1, 3 four hits at time 2 lie half way through their interval (50 percent),
  while the estimator measures their offset 1 in median beat intervals of 1.5 and
  returns 66.67.
\<close>

theorem detect_swing_not_spec_median:
  "detect_swing
      [\<lparr>time = 3 / 5, type = ''hihat'', confidence = 7 / 10, features = None\<rparr>,
       \<lparr>time = 8 / 5, type = ''hihat'', confidence = 7 / 10, features = None\<rparr>]
      [0, 1, 2] 4 = 50
   \<and> swing_by_offbeat_median (\<lambda>beat_start beat_end. beat_end - beat_start)
      [\<lparr>time = 3 / 5, type = ''hihat'', confidence = 7 / 10, features = None\<rparr>,
       \<lparr>time = 8 / 5, type = ''hihat'', confidence = 7 / 10, features = None\<rparr>]
      [0, 1, 2] = 60
   \<and> detect_swing
      [\<lparr>time = 2, type = ''hihat'', confidence = 7 / 10, features = None\<rparr>,
       \<lparr>time = 2, type = ''clap'', confidence = 7 / 10, features = None\<rparr>,
       \<lparr>time = 2, type = ''snare'', confidence = 7 / 10, features = None\<rparr>,
       \<lparr>time = 2, type = ''kick'', confidence = 7 / 10, features = None\<rparr>]
      [0, 1, 3] 4 = 200 / 3
   \<and> swing_by_offbeat_median (\<lambda>beat_start beat_end. beat_end - beat_start)
      [\<lparr>time = 2, type = ''hihat'', confidence = 7 / 10, features = None\<rparr>,
       \<lparr>time = 2, type = ''clap'', confidence = 7 / 10, features = None\<rparr>,
       \<lparr>time = 2, type = ''snare'', confidence = 7 / 10, features = None\<rparr>,
       \<lparr>time = 2, type = ''kick'', confidence = 7 / 10, features = None\<rparr>]
      [0, 1, 3] = 50"
  by code_simp

section \<open>Properties of the adaptive rescan\<close>

lemma py_round_half: "\<bar>of_int (py_round x) - x\<bar> \<le> 1 / 2"
proof -
  have "of_int \<lfloor>x\<rfloor> \<le> x" "x < of_int \<lfloor>x\<rfloor> + 1" by linarith+
  then show ?thesis by (auto simp: py_round_def Let_def)
qed

lemma py_round_to_error: "\<bar>py_round_to x n - x\<bar> \<le> 1 / (2 * 10 ^ n)"
proof -
  have p: "(0::real) < 10 ^ n" by simp
  have "py_round_to x n - x = (of_int (py_round (x * 10 ^ n)) - x * 10 ^ n) / 10 ^ n"
    using p by (simp add: py_round_to_def field_simps)
  then have "\<bar>py_round_to x n - x\<bar> = \<bar>of_int (py_round (x * 10 ^ n)) - x * 10 ^ n\<bar> / 10 ^ n"
    using p by (simp add: abs_divide)
  also have "\<dots> \<le> (1 / 2) / 10 ^ n"
    using p py_round_half [of "x * 10 ^ n"] by (intro divide_right_mono) simp_all
  finally show ?thesis by simp
qed

lemma scan_positions_inv:
  assumes "\<forall>h \<in> set hs. Q h" and "set E0 \<subseteq> set es"
    and step: "\<And>grid_pos e. \<forall>t \<in> set E0.
                  3 / 100 \<le> \<bar>t - (bar_start + of_int grid_pos * grid_duration)\<bar>
               \<Longrightarrow> Q \<lparr>new_time = py_round_to (bar_start + of_int grid_pos * grid_duration) 4,
                      new_type = drum_type,
                      new_confidence = py_round_to (min (e / threshold) 1) 3,
                      new_bar = bar_num, new_grid_position = grid_pos,
                      new_energy = py_round_to e 5,
                      new_threshold_used = py_round_to threshold 5,
                      new_is_quiet_bar = is_quiet\<rparr>"
  shows "(\<forall>h \<in> set (fst (scan_positions window_energy duration bar_start grid_duration
                              bar_num is_quiet drum_type threshold positions (hs, es))). Q h)
       \<and> set E0 \<subseteq> set (snd (scan_positions window_energy duration bar_start grid_duration
                              bar_num is_quiet drum_type threshold positions (hs, es)))"
  using assms(1,2)
proof (induction positions arbitrary: hs es)
  case Nil
  then show ?case by simp
next
  case (Cons grid_pos positions)
  let ?t = "bar_start + of_int grid_pos * grid_duration"
  show ?case
  proof (cases "\<not> (?t < 0 \<or> ?t \<ge> duration) \<and> \<not> (\<exists>t \<in> set es. \<bar>t - ?t\<bar> < 3 / 100)
                \<and> window_energy drum_type ?t > threshold")
    case True
    then have "\<forall>t \<in> set E0. 3 / 100 \<le> \<bar>t - ?t\<bar>"
      using Cons.prems(2) by force
    from step [OF this] have "Q \<lparr>new_time = py_round_to ?t 4,
                      new_type = drum_type,
                      new_confidence = py_round_to (min (window_energy drum_type ?t / threshold) 1) 3,
                      new_bar = bar_num, new_grid_position = grid_pos,
                      new_energy = py_round_to (window_energy drum_type ?t) 5,
                      new_threshold_used = py_round_to threshold 5,
                      new_is_quiet_bar = is_quiet\<rparr>" .
    with Cons.prems have
      "\<forall>h \<in> set (hs @ [\<lparr>new_time = py_round_to ?t 4,
                      new_type = drum_type,
                      new_confidence = py_round_to (min (window_energy drum_type ?t / threshold) 1) 3,
                      new_bar = bar_num, new_grid_position = grid_pos,
                      new_energy = py_round_to (window_energy drum_type ?t) 5,
                      new_threshold_used = py_round_to threshold 5,
                      new_is_quiet_bar = is_quiet\<rparr>]). Q h"
      "set E0 \<subseteq> set (py_round_to ?t 3 # es)"
      by auto
    from Cons.IH [OF this] True show ?thesis by (simp add: Let_def)
  next
    case False
    with Cons.IH [OF Cons.prems] show ?thesis by (auto simp: Let_def)
  qed
qed


lemma scan_drums_inv:
  assumes "scan_drums window_energy duration bar_start grid_duration bar_num is_quiet
             threshold_multiplier items (hs, es) = Inr (hs', es')"
    and "\<forall>h \<in> set hs. grid_time_clear off bd grid_duration E0 h" and "set E0 \<subseteq> set es"
    and "bar_start = off + of_int (bar_num - 1) * bd"
  shows "(\<forall>h \<in> set hs'. grid_time_clear off bd grid_duration E0 h) \<and> set E0 \<subseteq> set es'"
  using assms(1,2,3)
proof (induction items arbitrary: hs es)
  case Nil
  then show ?case by simp
next
  case (Cons item items)
  obtain drum_type positions where item: "item = (drum_type, positions)" by (cases item)
  show ?case
  proof (cases "positions = []")
    case True
    with Cons.prems(1) item have
      "scan_drums window_energy duration bar_start grid_duration bar_num is_quiet
         threshold_multiplier items (hs, es) = Inr (hs', es')" by simp
    from Cons.IH [OF this Cons.prems(2,3)] show ?thesis .
  next
    case False
    with Cons.prems(1) item obtain base where
      run: "scan_drums window_energy duration bar_start grid_duration bar_num is_quiet
         threshold_multiplier items
         (scan_positions window_energy duration bar_start grid_duration bar_num
            is_quiet drum_type (base * threshold_multiplier) positions (hs, es))
         = Inr (hs', es')"
      by (auto split: option.splits)
    let ?st = "scan_positions window_energy duration bar_start grid_duration bar_num
            is_quiet drum_type (base * threshold_multiplier) positions (hs, es)"
    have "(\<forall>h \<in> set (fst ?st). grid_time_clear off bd grid_duration E0 h)
            \<and> set E0 \<subseteq> set (snd ?st)"
      using Cons.prems(2,3)
      by (rule scan_positions_inv)
         (simp add: grid_time_clear_def assms(4) list_all_iff)
    moreover from run have
      "scan_drums window_energy duration bar_start grid_duration bar_num is_quiet
         threshold_multiplier items (fst ?st, snd ?st) = Inr (hs', es')" by simp
    ultimately show ?thesis using Cons.IH by blast
  qed
qed

lemma scan_bars_inv:
  assumes "scan_bars window_energy duration off bd grid_duration sensitivity_boost
             bar_energies bars (hs, es) = Inr (hs', es')"
    and "\<forall>h \<in> set hs. grid_time_clear off bd grid_duration E0 h" and "set E0 \<subseteq> set es"
  shows "(\<forall>h \<in> set hs'. grid_time_clear off bd grid_duration E0 h) \<and> set E0 \<subseteq> set es'"
  using assms
proof (induction bars arbitrary: hs es)
  case Nil
  then show ?case by simp
next
  case (Cons bar_num bars)
  from Cons.prems(1) obtain q m hs1 es1 where
    d: "scan_drums window_energy duration (off + of_int (bar_num - 1) * bd) grid_duration
          bar_num q m ADAPTIVE_EXPECTED_POSITIONS (hs, es) = Inr (hs1, es1)"
    and b: "scan_bars window_energy duration off bd grid_duration sensitivity_boost
             bar_energies bars (hs1, es1) = Inr (hs', es')"
    by (auto simp: Let_def split: if_splits sum.splits)
  from scan_drums_inv [OF d Cons.prems(2,3) refl]
  have "(\<forall>h \<in> set hs1. grid_time_clear off bd grid_duration E0 h) \<and> set E0 \<subseteq> set es1" .
  with Cons.IH [OF b] show ?case by blast
qed

lemma grid_time_clear_distance:
  assumes "grid_time_clear off bd gd E0 h" and "py_round_to t 3 \<in> set E0"
  shows "2945 / 100000 \<le> \<bar>new_time h - t\<bar>"
proof -
  define raw where "raw = off + of_int (new_bar h - 1) * bd + of_int (new_grid_position h) * gd"
  from assms have h: "new_time h = py_round_to raw 4"
    and far: "3 / 100 \<le> \<bar>py_round_to t 3 - raw\<bar>"
    by (auto simp: grid_time_clear_def Let_def raw_def list_all_iff)
  have a: "\<bar>py_round_to raw 4 - raw\<bar> \<le> 1 / 20000"
    using py_round_to_error [of raw 4] by simp
  have b: "\<bar>py_round_to t 3 - t\<bar> \<le> 1 / 2000"
    using py_round_to_error [of t 3] by simp
  show ?thesis unfolding h using a b far by linarith
qed

lemma detect_adaptive_scan:
  assumes "(case scan_bars window_energy duration off bd gd boost bar_energies bars ([], E0) of
              Inl e \<Rightarrow> Inl e
            | Inr (found, es') \<Rightarrow>
                Inr \<lparr>total_bars = tb, bars_scanned = n, quiet_bars = qb,
                     new_hits = sort_key new_time found\<rparr>) = Inr result"
  shows "\<forall>h \<in> set (new_hits result). grid_time_clear off bd gd E0 h"
proof -
  from assms obtain found es' where
    scan: "scan_bars window_energy duration off bd gd boost bar_energies bars ([], E0)
             = Inr (found, es')"
    and res: "new_hits result = sort_key new_time found"
    by (auto split: sum.splits prod.splits)
  from scan_bars_inv [OF scan, of E0] show ?thesis unfolding res by simp
qed

text \<open>
  C4, amended. For every adaptive rescan that returns, every new hit is emitted at a grid
  time \<open>downbeat_offset + (bar - 1) * bar_duration + grid_position * grid_duration\<close>
  (reported rounded to four places) that is at least 30 ms away from the time, rounded to
  the millisecond, of every pre-existing hit of whatever drum type. So no new hit lies
  within 29.45 ms of a pre-existing hit.
\<close>

theorem adaptive_rescan_clearance:
  fixes bpm :: real and time_signature :: int
  shows "detect_adaptive bar_rms window_energy n_samples bpm downbeat_offset time_signature
           existing target_bars sensitivity_boost = Inr result
         \<longrightarrow> (\<forall>h \<in> set (new_hits result). \<forall>e \<in> set existing. \<forall>t.
                existing_time e = Some t \<longrightarrow>
                  new_time h =
                    py_round_to (downbeat_offset
                       + of_int (new_bar h - 1) * (60 / bpm * of_int time_signature)
                       + of_int (new_grid_position h) * (60 / bpm / 4)) 4
                \<and> 3 / 100 \<le> \<bar>py_round_to t 3
                      - (downbeat_offset
                         + of_int (new_bar h - 1) * (60 / bpm * of_int time_signature)
                         + of_int (new_grid_position h) * (60 / bpm / 4))\<bar>
                \<and> 2945 / 100000 \<le> \<bar>new_time h - t\<bar>)"
proof (intro impI ballI allI)
  fix h e t
  assume run: "detect_adaptive bar_rms window_energy n_samples bpm downbeat_offset
           time_signature existing target_bars sensitivity_boost = Inr result"
    and h: "h \<in> set (new_hits result)" and e: "e \<in> set existing"
    and t: "existing_time e = Some t"
  let ?E0 = "map (\<lambda>h. py_round_to (case existing_time h of Some t \<Rightarrow> t | None \<Rightarrow> 0) 3)
               existing"
  let ?bd = "60 / bpm * of_int time_signature"
  let ?gd = "60 / bpm / 4"
  have nz: "bpm \<noteq> 0" "?bd \<noteq> 0"
  proof -
    show "bpm \<noteq> 0"
    proof
      assume z: "bpm = 0"
      from run [unfolded detect_adaptive_def Let_def if_P [OF z]] show False by simp
    qed
    then show "?bd \<noteq> 0"
    proof (rule contrapos_nn)
      assume z: "?bd = 0"
      from run [unfolded detect_adaptive_def Let_def if_not_P [OF \<open>bpm \<noteq> 0\<close>] if_P [OF z]]
      have False by simp
      then show "bpm = 0" ..
    qed
  qed
  have clear: "grid_time_clear downbeat_offset ?bd ?gd ?E0 h"
    using detect_adaptive_scan
      [OF run [unfolded detect_adaptive_def Let_def if_not_P [OF nz(1)] if_not_P [OF nz(2)]]] h
    by blast
  from e t have mem: "py_round_to t 3 \<in> set ?E0" by force
  let ?raw = "downbeat_offset + of_int (new_bar h - 1) * ?bd
             + of_int (new_grid_position h) * ?gd"
  from clear have c1: "new_time h = py_round_to ?raw 4"
    and c2: "list_all (\<lambda>t. 3 / 100 \<le> \<bar>t - ?raw\<bar>) ?E0"
    unfolding grid_time_clear_def Let_def by blast+
  from c2 mem have c3: "3 / 100 \<le> \<bar>py_round_to t 3 - ?raw\<bar>"
    unfolding list_all_iff by blast
  from c1 c3 grid_time_clear_distance [OF clear mem]
  show "new_time h =
          py_round_to (downbeat_offset + of_int (new_bar h - 1) * ?bd
             + of_int (new_grid_position h) * ?gd) 4
        \<and> 3 / 100 \<le> \<bar>py_round_to t 3
              - (downbeat_offset + of_int (new_bar h - 1) * ?bd
                 + of_int (new_grid_position h) * ?gd)\<bar>
        \<and> 2945 / 100000 \<le> \<bar>new_time h - t\<bar>"
    by blast
qed

theorem adaptive_rescan_clearance_witness:
  "detect_adaptive (\<lambda>s e. 1 / 10)
       (\<lambda>d t. if d = ''kick'' \<and> (t = 0 \<or> t = 1) then 1 / 50 else 0) 441000
       120 0 4 [\<lparr>existing_time = Some (10004 / 10000), existing_type = ''kick''\<rparr>]
       (TargetList (Some [1])) 2
     = Inr \<lparr>total_bars = 6, bars_scanned = 1, quiet_bars = [6],
            new_hits =
              [\<lparr>new_time = 0, new_type = ''kick'', new_confidence = 1, new_bar = 1,
                new_grid_position = 0, new_energy = 1 / 50, new_threshold_used = 1 / 100,
                new_is_quiet_bar = False\<rparr>]\<rparr>
   \<and> 2945 / 100000 \<le> \<bar>(0::real) - 10004 / 10000\<bar>"
proof -
  let ?h = "\<lparr>new_time = 0, new_type = ''kick'', new_confidence = 1, new_bar = 1,
             new_grid_position = 0, new_energy = 1 / 50, new_threshold_used = 1 / 100,
             new_is_quiet_bar = False\<rparr>"
  let ?e = "\<lparr>existing_time = Some (10004 / 10000), existing_type = ''kick''\<rparr>"
  let ?R = "\<lparr>total_bars = 6, bars_scanned = 1, quiet_bars = [6], new_hits = [?h]\<rparr>"
  have run: "detect_adaptive (\<lambda>s e. 1 / 10)
       (\<lambda>d t. if d = ''kick'' \<and> (t = 0 \<or> t = 1) then 1 / 50 else 0) 441000
       120 0 4 [?e] (TargetList (Some [1])) 2 = Inr ?R"
    by code_simp
  from adaptive_rescan_clearance [rule_format, OF run, of ?h ?e "10004 / 10000"]
  have "2945 / 100000 \<le> \<bar>new_time ?h - 10004 / 10000\<bar>" by simp
  with run show ?thesis by simp
qed

text \<open>
  A new hit can lie within 30 ms of a pre-existing one: with a pre-existing kick at 0.0296 s the set of existing times holds
  \<^verbatim>\<open>round(0.0296, 3) = 0.03\<close>, the candidate kick at 0 s is not closer than 30 ms to
  that, and it is emitted 29.6 ms before the pre-existing kick.
\<close>

theorem adaptive_rescan_within_30ms:
  "detect_adaptive (\<lambda>s e. 1 / 10) (\<lambda>d t. if d = ''kick'' \<and> t = 0 then 1 / 50 else 0) 441000
       120 0 4 [\<lparr>existing_time = Some (296 / 10000), existing_type = ''kick''\<rparr>]
       (TargetList (Some [1])) 2
     = Inr \<lparr>total_bars = 6, bars_scanned = 1, quiet_bars = [6],
            new_hits =
              [\<lparr>new_time = 0, new_type = ''kick'', new_confidence = 1, new_bar = 1,
                new_grid_position = 0, new_energy = 1 / 50, new_threshold_used = 1 / 100,
                new_is_quiet_bar = False\<rparr>]\<rparr>
   \<and> \<bar>(0::real) - 296 / 10000\<bar> < 30 / 1000"
proof -
  have "detect_adaptive (\<lambda>s e. 1 / 10) (\<lambda>d t. if d = ''kick'' \<and> t = 0 then 1 / 50 else 0) 441000
       120 0 4 [\<lparr>existing_time = Some (296 / 10000), existing_type = ''kick''\<rparr>]
       (TargetList (Some [1])) 2
     = Inr \<lparr>total_bars = 6, bars_scanned = 1, quiet_bars = [6],
            new_hits =
              [\<lparr>new_time = 0, new_type = ''kick'', new_confidence = 1, new_bar = 1,
                new_grid_position = 0, new_energy = 1 / 50, new_threshold_used = 1 / 100,
                new_is_quiet_bar = False\<rparr>]\<rparr>"
    by code_simp
  then show ?thesis by simp
qed

section \<open>Properties of the quantizer in double precision\<close>

subsection \<open>The rounding function\<close>

lemma bitlen_bounds:
  "0 < n \<Longrightarrow> 1 \<le> bitlen n \<and> 2 ^ nat (bitlen n - 1) \<le> n \<and> n < 2 ^ nat (bitlen n)"
proof (induction n rule: bitlen.induct)
  case (1 n)
  show ?case
  proof (cases "n = 1")
    case True
    then show ?thesis by (simp add: bitlen.simps [of 1] bitlen.simps [of 0])
  next
    case False
    with "1.prems" have pos: "0 < n div 2" by simp
    from "1.IH" [OF _ pos] "1.prems" have
      ih: "1 \<le> bitlen (n div 2)" "2 ^ nat (bitlen (n div 2) - 1) \<le> n div 2"
          "n div 2 < 2 ^ nat (bitlen (n div 2))"
      by simp_all
    have b: "bitlen n = 1 + bitlen (n div 2)"
      using "1.prems" by (subst bitlen.simps) simp
    have n1: "nat (bitlen n - 1) = Suc (nat (bitlen (n div 2) - 1))"
      using ih(1) b by simp
    have n2: "nat (bitlen n) = Suc (nat (bitlen (n div 2)))"
      using ih(1) b by simp
    have p1: "(2::int) ^ nat (bitlen n - 1) = 2 * 2 ^ nat (bitlen (n div 2) - 1)"
      unfolding n1 by simp
    have p2: "(2::int) ^ nat (bitlen n) = 2 * 2 ^ nat (bitlen (n div 2))"
      unfolding n2 by simp
    have "2 * 2 ^ nat (bitlen (n div 2) - 1) \<le> n" using ih(2) by linarith
    moreover have "n < 2 * 2 ^ nat (bitlen (n div 2))" using ih(3) by linarith
    moreover have "1 \<le> bitlen n" using ih(1) b by simp
    ultimately show ?thesis unfolding p1 p2 by blast
  qed
qed

lemma ilog2_bounds:
  assumes "0 < x"
  shows "2 powi (ilog2 x) \<le> x" and "x < 2 powi (ilog2 x + 1)"
proof -
  have "2 powi (ilog2 x) \<le> x \<and> x < 2 powi (ilog2 x + 1)"
  proof (cases "1 \<le> x")
    case True
    then have n: "0 < \<lfloor>x\<rfloor>" by simp
    from bitlen_bounds [OF n] have b: "1 \<le> bitlen \<lfloor>x\<rfloor>"
      "2 ^ nat (bitlen \<lfloor>x\<rfloor> - 1) \<le> \<lfloor>x\<rfloor>" "\<lfloor>x\<rfloor> < 2 ^ nat (bitlen \<lfloor>x\<rfloor>)"
      by simp_all
    have e: "ilog2 x = bitlen \<lfloor>x\<rfloor> - 1" using True by (simp add: ilog2_def)
    have "(2::real) powi (bitlen \<lfloor>x\<rfloor> - 1) = 2 ^ nat (bitlen \<lfloor>x\<rfloor> - 1)"
      using b(1) by (simp add: power_int_nonneg_exp)
    also have "\<dots> = of_int (2 ^ nat (bitlen \<lfloor>x\<rfloor> - 1))" by simp
    also have "\<dots> \<le> of_int \<lfloor>x\<rfloor>" using b(2) by (simp only: of_int_le_iff)
    also have "\<dots> \<le> x" by simp
    finally have lo: "2 powi (ilog2 x) \<le> x" by (simp add: e)
    have "\<lfloor>x\<rfloor> + 1 \<le> 2 ^ nat (bitlen \<lfloor>x\<rfloor>)" using b(3) by simp
    then have "(of_int (\<lfloor>x\<rfloor> + 1) :: real) \<le> of_int (2 ^ nat (bitlen \<lfloor>x\<rfloor>))"
      by (simp only: of_int_le_iff)
    then have "of_int \<lfloor>x\<rfloor> + 1 \<le> (2::real) ^ nat (bitlen \<lfloor>x\<rfloor>)" by simp
    moreover have "x < of_int \<lfloor>x\<rfloor> + 1" by linarith
    ultimately have "x < 2 ^ nat (bitlen \<lfloor>x\<rfloor>)" by linarith
    also have "\<dots> = (2::real) powi (bitlen \<lfloor>x\<rfloor>)"
      using b(1) by (simp add: power_int_nonneg_exp)
    finally have "x < 2 powi (ilog2 x + 1)" by (simp add: e)
    with lo show ?thesis by simp
  next
    case False
    define c where "c = \<lceil>1 / x\<rceil>"
    from False assms have y: "1 < 1 / x" by simp
    then have c2: "2 \<le> c" unfolding c_def by linarith
    then have n: "0 < c - 1" by simp
    from bitlen_bounds [OF n] have b: "1 \<le> bitlen (c - 1)"
      "2 ^ nat (bitlen (c - 1) - 1) \<le> c - 1" "c - 1 < 2 ^ nat (bitlen (c - 1))"
      by simp_all
    define m where "m = bitlen (c - 1)"
    have e: "ilog2 x = - m" using False by (simp add: ilog2_def c_def m_def)
    have yc: "1 / x \<le> of_int c" "of_int (c - 1) < 1 / x" unfolding c_def by linarith+
    have "c \<le> 2 ^ nat m" using b(3) by (simp add: m_def)
    then have "(of_int c :: real) \<le> of_int (2 ^ nat m)" by (simp only: of_int_le_iff)
    then have "(of_int c :: real) \<le> 2 ^ nat m" by simp
    with yc(1) have "1 / x \<le> 2 ^ nat m" by linarith
    then have "1 / (2 ^ nat m) \<le> x" using assms by (simp add: field_simps)
    moreover have "(2::real) powi (- m) = 1 / 2 ^ nat m"
      using b(1) by (simp add: m_def power_int_minus_divide power_int_nonneg_exp)
    ultimately have lo: "2 powi (ilog2 x) \<le> x" by (simp add: e)
    have "(of_int (2 ^ nat (m - 1)) :: real) \<le> of_int (c - 1)"
      using b(2) by (simp only: of_int_le_iff m_def)
    then have "(2::real) ^ nat (m - 1) \<le> of_int (c - 1)" by simp
    with yc(2) have "2 ^ nat (m - 1) < 1 / x" by linarith
    then have "x < 1 / 2 ^ nat (m - 1)" using assms by (simp add: field_simps)
    moreover have "(2::real) powi (- m + 1) = 1 / 2 ^ nat (m - 1)"
    proof -
      have "(2::real) powi (- m + 1) = 2 powi (- (m - 1))" by simp
      also have "\<dots> = 1 / 2 powi (m - 1)" by (rule power_int_minus_divide)
      also have "\<dots> = 1 / 2 ^ nat (m - 1)"
        using b(1) by (simp add: m_def power_int_nonneg_exp)
      finally show ?thesis .
    qed
    ultimately have "x < 2 powi (ilog2 x + 1)" by (simp add: e)
    with lo show ?thesis by simp
  qed
  then show "2 powi (ilog2 x) \<le> x" and "x < 2 powi (ilog2 x + 1)" by simp_all
qed

lemma py_round_of_int: "py_round (of_int n) = n"
  by (simp add: py_round_def)

lemma py_round_between:
  assumes "of_int a \<le> x" and "x \<le> of_int b"
  shows "a \<le> py_round x" and "py_round x \<le> b"
proof -
  have f: "a \<le> \<lfloor>x\<rfloor>" "\<lfloor>x\<rfloor> \<le> b" using assms by (simp_all add: le_floor_iff floor_le_iff)
  show "a \<le> py_round x" using f(1) by (simp add: py_round_def Let_def)
  show "py_round x \<le> b"
  proof (cases "x = of_int \<lfloor>x\<rfloor>")
    case True
    then have "x - of_int \<lfloor>x\<rfloor> < 1 / 2" by simp
    then show ?thesis using f(2) by (simp add: py_round_def Let_def)
  next
    case False
    then have "of_int \<lfloor>x\<rfloor> < x" by linarith
    with assms(2) have "of_int \<lfloor>x\<rfloor> < (of_int b :: real)" by linarith
    then have "\<lfloor>x\<rfloor> < b" by (simp only: of_int_less_iff)
    then show ?thesis by (simp add: py_round_def Let_def)
  qed
qed

lemma ilog2_le:
  assumes "0 < v" and "v \<le> 2 powi b"
  shows "ilog2 v \<le> b"
proof (rule ccontr)
  assume "\<not> ilog2 v \<le> b"
  then have "b < ilog2 v" by simp
  then have "(2::real) powi b < 2 powi (ilog2 v)" by (intro power_int_strict_increasing) simp_all
  with ilog2_bounds(1) [OF assms(1)] assms(2) show False by linarith
qed

lemma fl64_zero: "fl64 0 = 0"
  by (simp add: fl64_def)

lemma fl64_error: "\<bar>fl64 x - x\<bar> \<le> \<bar>x\<bar> / 2 ^ 53 + 1 / 2 ^ 1075"
proof (cases "x = 0")
  case True
  then show ?thesis by (simp add: fl64_zero)
next
  case False
  define e where "e = max (ilog2 \<bar>x\<bar>) (- 1022)"
  define q :: real where "q = 2 powi (e - 52)"
  have q: "0 < q" by (simp add: q_def)
  have fl: "fl64 x = of_int (py_round (x / q)) * q"
    using False by (simp add: fl64_def Let_def e_def q_def)
  have "fl64 x - x = (of_int (py_round (x / q)) - x / q) * q"
    using q by (simp add: fl field_simps)
  then have "\<bar>fl64 x - x\<bar> = \<bar>of_int (py_round (x / q)) - x / q\<bar> * q"
    using q by (simp add: abs_mult)
  also have "\<dots> \<le> 1 / 2 * q"
    using q py_round_half [of "x / q"] by (intro mult_right_mono) simp_all
  finally have h: "\<bar>fl64 x - x\<bar> \<le> q / 2" by simp
  have q53: "q / 2 = 2 powi e / 2 ^ 53"
  proof -
    have "q = 2 powi e * 2 powi (- 52)" unfolding q_def
      using power_int_add [of "2::real" e "- 52"] by simp
    then show ?thesis by simp
  qed
  have "q / 2 \<le> \<bar>x\<bar> / 2 ^ 53 + 1 / 2 ^ 1075"
  proof (cases "ilog2 \<bar>x\<bar> \<ge> - 1022")
    case True
    then have "e = ilog2 \<bar>x\<bar>" by (simp add: e_def)
    with ilog2_bounds(1) [of "\<bar>x\<bar>"] False have "2 powi e \<le> \<bar>x\<bar>" by simp
    then have "2 powi e / 2 ^ 53 \<le> \<bar>x\<bar> / 2 ^ 53" by (intro divide_right_mono) simp_all
    then show ?thesis unfolding q53 by simp
  next
    case False
    then have "e = - 1022" by (simp add: e_def)
    then have "2 powi e / 2 ^ 53 = (1::real) / 2 ^ 1075" by simp
    then show ?thesis unfolding q53 by simp
  qed
  with h show ?thesis by linarith
qed

text \<open>A double is not changed by rounding it again.\<close>

lemma fl64_idem: "fl64 (fl64 x) = fl64 x"
proof (cases "x = 0")
  case True
  then show ?thesis by (simp add: fl64_zero)
next
  case False
  define e where "e = max (ilog2 \<bar>x\<bar>) (- 1022)"
  define q :: real where "q = 2 powi (e - 52)"
  define m where "m = py_round (x / q)"
  define v where "v = of_int m * q"
  have q: "0 < q" by (simp add: q_def)
  have fl: "fl64 x = v"
    using False by (simp add: fl64_def Let_def e_def q_def m_def v_def)
  have e_lo: "- 1022 \<le> e" and e_ge: "ilog2 \<bar>x\<bar> \<le> e" by (simp_all add: e_def)
  have q53: "q * 2 ^ 53 = 2 powi (e + 1)"
  proof -
    have "(2::real) powi (e + 1) = 2 powi (e - 52) * 2 powi 53"
      using power_int_add [of "2::real" "e - 52" 53] by (simp add: add.commute)
    then show ?thesis by (simp add: q_def)
  qed
  have "\<bar>x\<bar> < 2 powi (ilog2 \<bar>x\<bar> + 1)" using ilog2_bounds(2) [of "\<bar>x\<bar>"] False by simp
  also have "\<dots> \<le> 2 powi (e + 1)" using e_ge by (intro power_int_increasing) simp_all
  finally have "\<bar>x\<bar> < q * 2 ^ 53" using q53 by simp
  then have "\<bar>x / q\<bar> < 2 ^ 53" using q by (simp add: field_simps)
  then have "- (2 ^ 53) \<le> x / q" "x / q \<le> 2 ^ 53" by linarith+
  then have "of_int (- (2 ^ 53)) \<le> x / q" "x / q \<le> of_int (2 ^ 53)" by simp_all
  from py_round_between [OF this] have m: "- (2 ^ 53) \<le> m" "m \<le> 2 ^ 53" by (simp_all add: m_def)
  then have "\<bar>of_int m :: real\<bar> \<le> 2 ^ 53" by (simp add: abs_le_iff)
  then have step: "\<bar>of_int m\<bar> * q \<le> 2 ^ 53 * q" using q by (intro mult_right_mono) simp_all
  have "\<bar>v\<bar> = \<bar>of_int m\<bar> * q" using q by (simp add: v_def abs_mult)
  also note step
  also have "2 ^ 53 * q = 2 powi (e + 1)" using q53 by (simp add: mult.commute)
  finally have v_hi: "\<bar>v\<bar> \<le> 2 powi (e + 1)" .
  show ?thesis
  proof (cases "v = 0")
    case True
    then show ?thesis by (simp add: fl fl64_zero)
  next
    case False
    define e' where "e' = max (ilog2 \<bar>v\<bar>) (- 1022)"
    define q' :: real where "q' = 2 powi (e' - 52)"
    have q': "0 < q'" by (simp add: q'_def)
    have flv: "fl64 v = of_int (py_round (v / q')) * q'"
      using False by (simp add: fl64_def Let_def e'_def q'_def)
    have vpos: "0 < \<bar>v\<bar>" using False by simp
    have il: "ilog2 \<bar>v\<bar> \<le> e + 1" by (rule ilog2_le [OF vpos v_hi])
    have "\<exists>j::int. v / q' = of_int j"
    proof (cases "e' \<le> e")
      case True
      have "q = q' * 2 powi (e - e')"
        unfolding q_def q'_def using power_int_add [of "2::real" "e' - 52" "e - e'"] by simp
      also have "(2::real) powi (e - e') = 2 ^ nat (e - e')"
        using True by (simp add: power_int_nonneg_exp)
      finally have "v / q' = of_int m * 2 ^ nat (e - e')" using q' by (simp add: v_def)
      also have "\<dots> = of_int (m * 2 ^ nat (e - e'))" by simp
      finally show ?thesis by blast
    next
      case False
      with il e_lo have e1: "e' = e + 1" and ilv: "ilog2 \<bar>v\<bar> = e + 1"
        by (simp_all add: e'_def max_def split: if_splits)
      from ilog2_bounds(1) [OF vpos] ilv v_hi have "\<bar>v\<bar> = 2 powi (e + 1)" by simp
      also have "\<dots> = 2 ^ 53 * q" using q53 by (simp add: mult.commute)
      finally have "\<bar>of_int m :: real\<bar> * q = 2 ^ 53 * q" using q by (simp add: v_def abs_mult)
      then have am: "\<bar>of_int m :: real\<bar> = 2 ^ 53" using q by simp
      have "q' = q * 2"
        unfolding q_def q'_def e1 using power_int_add [of "2::real" "e - 52" 1] by simp
      then have vq: "v / q' = of_int m / 2" using q by (simp add: v_def)
      from am have "of_int m = (2::real) ^ 53 \<or> of_int m = - ((2::real) ^ 53)"
        by (simp add: abs_if split: if_splits) 
      then have "m = 2 ^ 53 \<or> m = - (2 ^ 53)"
        by (metis of_int_eq_iff of_int_numeral of_int_power of_int_minus)
      then have "even m" by auto
      then obtain j where "m = 2 * j" by (auto elim: evenE)
      then have "of_int m / 2 = (of_int j :: real)" by simp
      with vq show ?thesis by auto
    qed
    then obtain j :: int where j: "v / q' = of_int j" by blast
    then have "of_int (py_round (v / q')) * q' = v"
      using q' by (simp add: py_round_of_int field_simps)
    then show ?thesis by (simp add: fl flv)
  qed
qed

text \<open>
  Below \<open>3 * 10 ^ 10\<close> in magnitude a rounding moves a number by at most \<open>10 ^ -5\<close>
  (in fact by far less; this coarse bound is all the grid needs).
\<close>

lemma fl64_near:
  assumes "\<bar>x\<bar> \<le> 30000000000"
  shows "\<bar>fl64 x - x\<bar> \<le> 1 / 100000"
proof -
  define r1 where "r1 = \<bar>x\<bar> / 2 ^ 53"
  define r2 :: real where "r2 = 1 / 2 ^ 1075"
  have "r1 \<le> 30000000000 / 2 ^ 53" unfolding r1_def using assms by (intro divide_right_mono) simp_all
  also have "\<dots> \<le> 1 / 200000" by simp
  finally have 1: "r1 \<le> 1 / 200000" .
  have "r2 \<le> 1 / 2 ^ 18" unfolding r2_def by (intro divide_left_mono power_increasing) simp_all
  also have "\<dots> \<le> 1 / 200000" by simp
  finally have 2: "r2 \<le> 1 / 200000" .
  have "\<bar>fl64 x - x\<bar> \<le> r1 + r2" unfolding r1_def r2_def by (rule fl64_error)
  with 1 2 show ?thesis by linarith
qed

subsection \<open>Hits on the grid stay where they are\<close>

lemma abs_div_le:
  fixes x g c :: real
  assumes "0 < g" and "\<bar>x\<bar> \<le> c * g"
  shows "\<bar>x / g\<bar> \<le> c"
  using assms by (simp add: field_simps)

lemma fl64_4: "fl64 4 = 4"
  by code_simp

lemma grid_duration_fl_range:
  fixes bpm :: real
  assumes "1 \<le> bpm" and "bpm \<le> 1000"
  shows "1 / 100 \<le> grid_duration_fl bpm 4" and "grid_duration_fl bpm 4 \<le> 16"
proof -
  define b where "b = 60 / bpm"
  define bd where "bd = fl64 b"
  define g where "g = fl64 (bd / 4)"
  have gd: "grid_duration_fl bpm 4 = g"
    by (simp add: grid_duration_fl_def Let_def fl64_4 g_def bd_def b_def)
  have "60 / 1000 \<le> 60 / bpm" using assms by (intro divide_left_mono) simp_all
  then have lo: "3 / 50 \<le> b" by (simp add: b_def)
  have "60 / bpm \<le> 60 / 1" using assms by (intro divide_left_mono) simp_all
  then have hi: "b \<le> 60" by (simp add: b_def)
  have "\<bar>b\<bar> \<le> 30000000000" using lo hi by linarith
  from fl64_near [OF this] have e1: "\<bar>bd - b\<bar> \<le> 1 / 100000" by (simp add: bd_def)
  have "\<bar>bd / 4\<bar> \<le> 30000000000" using lo hi e1 by linarith
  from fl64_near [OF this] have e2: "\<bar>g - bd / 4\<bar> \<le> 1 / 100000" by (simp add: g_def)
  show "1 / 100 \<le> grid_duration_fl bpm 4" unfolding gd using lo e1 e2 by linarith
  show "grid_duration_fl bpm 4 \<le> 16" unfolding gd using hi e1 e2 by linarith
qed

lemma swing_offset_fl_range:
  assumes "1 \<le> swing" and "swing \<le> 99" and "1 / 100 \<le> g" and "g \<le> 16"
  shows "\<bar>swing_offset_fl swing g\<bar> \<le> 492 / 1000 * g"
proof -
  define sr where "sr = fl64 (swing / 100)"
  define s1 where "s1 = fl64 (sr - 1 / 2)"
  define so where "so = fl64 (s1 * g)"
  have so: "swing_offset_fl swing g = so"
    by (simp add: swing_offset_fl_def Let_def so_def s1_def sr_def)
  have g0: "0 < g" using assms(3) by (rule less_le_trans [rotated]) simp
  have "\<bar>swing / 100\<bar> \<le> 30000000000" using assms by linarith
  from fl64_near [OF this] have e1: "\<bar>sr - swing / 100\<bar> \<le> 1 / 100000" by (simp add: sr_def)
  have "\<bar>sr - 1 / 2\<bar> \<le> 30000000000" using assms e1 by linarith
  from fl64_near [OF this] have e2: "\<bar>s1 - (sr - 1 / 2)\<bar> \<le> 1 / 100000" by (simp add: s1_def)
  have s1: "\<bar>s1\<bar> \<le> 49002 / 100000" using assms e1 e2 by linarith
  have "\<bar>s1 * g\<bar> = \<bar>s1\<bar> * g" using g0 by (simp add: abs_mult)
  also have "\<dots> \<le> 49002 / 100000 * g" using s1 g0 by (intro mult_right_mono) simp_all
  finally have p: "\<bar>s1 * g\<bar> \<le> 49002 / 100000 * g" .
  then have "\<bar>s1 * g\<bar> \<le> 30000000000" using assms(4) by linarith
  from fl64_near [OF this] have e3: "\<bar>so - s1 * g\<bar> \<le> 1 / 100000" by (simp add: so_def)
  show ?thesis unfolding so using p e3 assms(3) by linarith
qed

text \<open>
  The grid time of step \<open>k\<close> is sent back to step \<open>k\<close>: the five roundings between
  \<open>k\<close> and \<^verbatim>\<open>rel_time / grid_duration\<close> and the swing offset together move the quotient
  by less than 0.497 from \<open>k\<close>.
\<close>

lemma grid_index_stable:
  assumes g: "1 / 100 \<le> g" "g \<le> 16"
    and so: "\<bar>so\<bar> \<le> 492 / 1000 * g"
    and d: "\<bar>d\<bar> \<le> 1000000"
    and k: "\<bar>k\<bar> \<le> 1000000000"
  shows "py_round (fl64 (fl64 (grid_time_fl g so d k - d) / g)) = k"
proof -
  define kr :: real where "kr = of_int k"
  define kf where "kf = fl64 kr"
  define A where "A = fl64 (kf * g)"
  define s where "s = (if k mod 2 = 1 then so else 0)"
  define B where "B = (if k mod 2 = 1 then fl64 (A + so) else A)"
  define G where "G = fl64 (B + d)"
  define rel where "rel = fl64 (G - d)"
  define Q where "Q = fl64 (rel / g)"
  have gt: "grid_time_fl g so d k = G"
    by (simp add: grid_time_fl_def Let_def G_def B_def A_def kf_def kr_def)
  have g0: "0 < g" using g(1) by (rule less_le_trans [rotated]) simp
  have "\<bar>of_int k :: real\<bar> \<le> of_int (1000000000)" using k by (simp only: of_int_abs [symmetric] of_int_le_iff)
  then have kr: "\<bar>kr\<bar> \<le> 1000000000" by (simp add: kr_def)
  then have "\<bar>kr\<bar> \<le> 30000000000" by linarith
  from fl64_near [OF this] have e0: "\<bar>kf - kr\<bar> \<le> 1 / 100000" by (simp add: kf_def)
  have kf: "\<bar>kf\<bar> \<le> 1000000001" using kr e0 by linarith
  have "\<bar>kf * g\<bar> = \<bar>kf\<bar> * g" using g0 by (simp add: abs_mult)
  also have "\<dots> \<le> (1000000001) * 16" using kf g g0 by (intro mult_mono) simp_all
  finally have kfg: "\<bar>kf * g\<bar> \<le> 16000000016" by simp
  then have "\<bar>kf * g\<bar> \<le> 30000000000" by linarith
  from fl64_near [OF this] have ea: "\<bar>A - kf * g\<bar> \<le> 1 / 100000" by (simp add: A_def)
  have s: "\<bar>s\<bar> \<le> 492 / 1000 * g" using so g0 by (simp add: s_def)
  have s8: "\<bar>s\<bar> \<le> 8" using s g(2) by linarith
  have eb: "\<bar>B - (A + s)\<bar> \<le> 1 / 100000"
  proof (cases "k mod 2 = 1")
    case True
    then have ss: "s = so" by (simp add: s_def)
    have "\<bar>A + so\<bar> \<le> 30000000000" using kfg ea s8 unfolding ss by linarith
    from fl64_near [OF this] show ?thesis using True by (simp add: B_def s_def)
  next
    case False
    then show ?thesis by (simp add: B_def s_def)
  qed
  have "\<bar>B + d\<bar> \<le> 30000000000" using kfg ea s8 eb d by linarith
  from fl64_near [OF this] have ec: "\<bar>G - (B + d)\<bar> \<le> 1 / 100000" by (simp add: G_def)
  have "\<bar>G - d\<bar> \<le> 30000000000" using kfg ea s8 eb ec d by linarith
  from fl64_near [OF this] have er: "\<bar>rel - (G - d)\<bar> \<le> 1 / 100000" by (simp add: rel_def)
  have "\<bar>(kf - kr) * g\<bar> = \<bar>kf - kr\<bar> * g" using g0 by (simp add: abs_mult)
  also have "\<dots> \<le> 1 / 100000 * g" using e0 g0 by (intro mult_right_mono) simp_all
  finally have ek: "\<bar>kf * g - kr * g\<bar> \<le> 1 / 100000 * g" by (simp add: algebra_simps)
  define D where "D = rel - kr * g"
  have "\<bar>D\<bar> \<le> 492 / 1000 * g + 1 / 100000 * g + 4 / 100000"
    unfolding D_def using ek ea eb ec er s by linarith
  also have "\<dots> \<le> 49601 / 100000 * g" using g(1) by linarith
  finally have "\<bar>D / g\<bar> \<le> 49601 / 100000" by (rule abs_div_le [OF g0])
  moreover have relg: "rel / g = kr + D / g" using g0 by (simp add: D_def field_simps)
  ultimately have dg: "\<bar>rel / g - kr\<bar> \<le> 49601 / 100000" by linarith
  then have "\<bar>rel / g\<bar> \<le> 30000000000" using kr by linarith
  from fl64_near [OF this] have eq: "\<bar>Q - rel / g\<bar> \<le> 1 / 100000" by (simp add: Q_def)
  have "\<bar>Q - kr\<bar> < 1 / 2" using dg eq by linarith
  from py_round_shift [OF this, of k] have "py_round Q = k" by (simp add: kr_def)
  then show ?thesis by (simp add: gt Q_def rel_def)
qed

lemma grid_time_fl_rounded: "fl64 (grid_time_fl g so d k) = grid_time_fl g so d k"
  by (simp add: grid_time_fl_def Let_def fl64_idem)

lemma quantize_hit_fl_fixed:
  assumes g: "1 / 100 \<le> g" "g \<le> 16"
    and so: "\<bar>so\<bar> \<le> 492 / 1000 * g"
    and d: "\<bar>d\<bar> \<le> 1000000"
    and k: "\<bar>k\<bar> \<le> 1000000000"
    and t: "time h = grid_time_fl g so d k"
  shows "quantize_hit_fl g so d st h = h"
proof -
  have i: "py_round (fl64 (fl64 (time h - d) / g)) = k"
    unfolding t by (rule grid_index_stable [OF g so d k])
  have "time (quantize_hit_fl g so d st h) = fl64 (time h)"
    by (simp add: quantize_hit_fl_def Let_def i t [symmetric] fl64_zero)
  also have "\<dots> = time h" unfolding t by (rule grid_time_fl_rounded)
  finally have "time (quantize_hit_fl g so d st h) = time h" .
  then show ?thesis by (simp add: quantize_hit_fl_def Let_def)
qed

text \<open>
  C6. Quantizer idempotence, amended. In double precision, with strength 1 and
  subdivision 4, at a tempo from 1 to 1000 bpm, a swing from 1 to 99 and a downbeat offset
  of at most \<open>10 ^ 6\<close> seconds in magnitude: a hit set in which every time is a grid time
  of the quantizer at these parameters (the double that \<^verbatim>\<open>quantize_to_grid\<close> computes as
  \<^verbatim>\<open>grid_time\<close> for some grid index of magnitude at most \<open>10 ^ 9\<close>) is returned by the
  quantizer with every hit time bit-equal to the input, and every other field unchanged.
  The output of a first pass need not be such a hit set: the last theorem of this section
  has a first pass whose output is one unit in the last place away from its grid time.
\<close>

theorem quantize_to_grid_fixed_point:
  fixes bpm :: real and hits :: "DrumHit list"
  assumes "1 \<le> bpm" and "bpm \<le> 1000" and "1 \<le> swing" and "swing \<le> 99"
    and "\<bar>downbeat_offset\<bar> \<le> 1000000"
    and "\<forall>h \<in> set hits. \<exists>k. \<bar>k\<bar> \<le> 1000000000 \<and>
           time h = grid_time_fl (grid_duration_fl bpm 4)
                      (swing_offset_fl swing (grid_duration_fl bpm 4)) downbeat_offset k"
  shows "quantize_to_grid_fl hits bpm downbeat_offset swing 1 4 = Inr hits"
proof -
  define g where "g = grid_duration_fl bpm 4"
  define so where "so = swing_offset_fl swing g"
  have g: "1 / 100 \<le> g" "g \<le> 16"
    unfolding g_def by (rule grid_duration_fl_range [OF assms(1,2)])+
  have so: "\<bar>so\<bar> \<le> 492 / 1000 * g"
    unfolding so_def by (rule swing_offset_fl_range [OF assms(3,4) g])
  have "quantize_hit_fl g so downbeat_offset 1 h = h" if "h \<in> set hits" for h
  proof -
    from assms(6) that obtain k where "\<bar>k\<bar> \<le> 1000000000"
      and "time h = grid_time_fl g so downbeat_offset k"
      unfolding g_def so_def by blast
    then show ?thesis by (rule quantize_hit_fl_fixed [OF g so assms(5)])
  qed
  then have "map (quantize_hit_fl g so downbeat_offset 1) hits = hits"
    by (simp add: map_idI)
  moreover have "bpm \<noteq> 0" "g \<noteq> 0" using assms(1) g(1) by auto
  ultimately show ?thesis
    by (simp add: quantize_to_grid_fl_def Let_def g_def [symmetric] so_def [symmetric])
qed

text \<open>
  At 90 bpm, offset 0.023 s and swing 60, the grid times of steps 1 and 2 are the doubles
  0.2063333333333333 and 0.35633333333333334; both hits come back unchanged.
\<close>

theorem quantize_to_grid_fixed_point_witness:
  "quantize_to_grid_fl
     [\<lparr>time = 3716970892456449 / 18014398509481984, type = ''hihat'', confidence = 1,
       features = None\<rparr>,
      \<lparr>time = 6419130668878747 / 18014398509481984, type = ''snare'', confidence = 1,
       features = None\<rparr>]
     90 (3314649325744685 / 144115188075855872) 60 1 4
   = Inr
     [\<lparr>time = 3716970892456449 / 18014398509481984, type = ''hihat'', confidence = 1,
       features = None\<rparr>,
      \<lparr>time = 6419130668878747 / 18014398509481984, type = ''snare'', confidence = 1,
       features = None\<rparr>]"
proof -
  let ?g = "grid_time_fl (grid_duration_fl 90 4) (swing_offset_fl 60 (grid_duration_fl 90 4))
              (3314649325744685 / 144115188075855872)"
  have 1: "?g 1 = 3716970892456449 / 18014398509481984" by code_simp
  have 2: "?g 2 = 6419130668878747 / 18014398509481984" by code_simp
  have "\<exists>k. \<bar>k\<bar> \<le> 1000000000 \<and> 3716970892456449 / 18014398509481984 = ?g k"
    using 1 by (intro exI [of _ 1]) simp
  moreover have "\<exists>k. \<bar>k\<bar> \<le> 1000000000 \<and> 6419130668878747 / 18014398509481984 = ?g k"
    using 2 by (intro exI [of _ 2]) simp
  ultimately show ?thesis
    by (intro quantize_to_grid_fixed_point) simp_all
qed

text \<open>
  Quantizing twice is not quantizing once. At 90 bpm, offset 0.023 s and swing 50, the hit at
  0.0859 s is quantized to 0.022999999999999993 s, and quantizing that again gives
  0.023 s: the interpolation \<^verbatim>\<open>hit.time + (grid_time - hit.time) * quantize_strength\<close>
  of the first pass does not land on the grid time. At 120 bpm, offset 0 and swing
  99.99999999999999, the hit at 0.125 s is quantized to 0.1875 s and that to 0.25 s: the
  swung step lies, after rounding, half way between two steps, and \<^verbatim>\<open>round\<close> takes it
  to the even one.
\<close>

theorem quantize_to_grid_not_idempotent:
  "quantize_to_grid_fl
     [\<lparr>time = fl64 (859 / 10000), type = ''kick'', confidence = 1, features = None\<rparr>]
     90 (fl64 (23 / 1000)) 50 1 4
   = Inr [\<lparr>time = 828662331436171 / 36028797018963968, type = ''kick'', confidence = 1,
           features = None\<rparr>]
   \<and> quantize_to_grid_fl
     [\<lparr>time = 828662331436171 / 36028797018963968, type = ''kick'', confidence = 1,
       features = None\<rparr>]
     90 (fl64 (23 / 1000)) 50 1 4
   = Inr [\<lparr>time = 3314649325744685 / 144115188075855872, type = ''kick'', confidence = 1,
           features = None\<rparr>]
   \<and> quantize_to_grid_fl
     [\<lparr>time = 1 / 8, type = ''kick'', confidence = 1, features = None\<rparr>]
     120 0 (fl64 (9999999999999999 / 100000000000000)) 1 4
   = Inr [\<lparr>time = 3 / 16, type = ''kick'', confidence = 1, features = None\<rparr>]
   \<and> quantize_to_grid_fl
     [\<lparr>time = 3 / 16, type = ''kick'', confidence = 1, features = None\<rparr>]
     120 0 (fl64 (9999999999999999 / 100000000000000)) 1 4
   = Inr [\<lparr>time = 1 / 4, type = ''kick'', confidence = 1, features = None\<rparr>]"
  by code_simp

end
